theory Spec2Isabelle
  imports Complex_Main
begin

section \<open>Python strings, slices and \<open>rfind\<close>\<close>

text \<open>
  A Python \<open>str\<close> is a sequence of Unicode code points; a code point is a natural
  number here, so that \<open>len\<close> counts what Python counts and the Devanagari danda
  (U+0964) is one character.
\<close>

type_synonym str = "nat list"

text \<open>
  Index normalisation of a slice bound against a sequence of length \<open>n\<close>: a negative
  bound counts from the end, every bound is clipped to \<open>[0, n]\<close>.
\<close>

definition adjust_index :: "int \<Rightarrow> int \<Rightarrow> int" where
  "adjust_index n i = (if i < 0 then max 0 (i + n) else min i n)"

definition py_slice :: "'a list \<Rightarrow> int \<Rightarrow> int \<Rightarrow> 'a list" where
  "py_slice xs s e =
     (let n = int (length xs); a = adjust_index n s; b = adjust_index n e
      in take (nat (b - a)) (drop (nat a) xs))"

definition matches_at :: "'a list \<Rightarrow> 'a list \<Rightarrow> int \<Rightarrow> bool" where
  "matches_at xs sub i = (0 \<le> i \<and> take (length sub) (drop (nat i) xs) = sub)"

text \<open>The highest of the \<open>k\<close> positions \<open>a, a + 1, ..., a + k - 1\<close> that satisfies \<open>P\<close>, or \<open>-1\<close>.\<close>

fun last_match :: "(int \<Rightarrow> bool) \<Rightarrow> int \<Rightarrow> nat \<Rightarrow> int" where
  "last_match P a 0 = - 1"
| "last_match P a (Suc k) = (if P (a + int k) then a + int k else last_match P a k)"

text \<open>
  \<open>str.rfind(sub, start, end)\<close>: the highest index \<open>i\<close> with \<open>sub\<close> inside
  \<open>xs[start:end]\<close> starting at \<open>i\<close>, or \<open>-1\<close>; the bounds are read as slice bounds.
\<close>

definition py_rfind :: "'a list \<Rightarrow> 'a list \<Rightarrow> int \<Rightarrow> int \<Rightarrow> int" where
  "py_rfind xs sub s e =
     (let n = int (length xs); a = adjust_index n s; b = adjust_index n e
      in last_match (matches_at xs sub) a (nat (b - int (length sub) - a + 1)))"

text \<open>\<open>str.isspace\<close> on one character: the code points Python counts as whitespace.\<close>

definition py_isspace :: "nat \<Rightarrow> bool" where
  "py_isspace c =
     ((9 \<le> c \<and> c \<le> 13) \<or> (28 \<le> c \<and> c \<le> 32) \<or> c = 133 \<or> c = 160 \<or> c = 5760
      \<or> (8192 \<le> c \<and> c \<le> 8202) \<or> c = 8232 \<or> c = 8233 \<or> c = 8239 \<or> c = 8287
      \<or> c = 12288)"

definition strip :: "str \<Rightarrow> str" where
  "strip s = rev (dropWhile py_isspace (rev (dropWhile py_isspace s)))"

fun max_list :: "int list \<Rightarrow> int" where
  "max_list [] = - 1"
| "max_list (x # xs) = fold max xs x"

section \<open>ingest.py: chunks and the chunker\<close>

record DocumentChunk =
  text' :: str
  filename :: str
  page_num :: int
  chunk_id :: int
  char_start :: int
  char_end :: int
  excerpt :: str

text \<open>\<open>DocumentChunk.__init__\<close>: the text is trimmed, the excerpt is its first 100 characters.\<close>

definition DocumentChunk_init :: "str \<Rightarrow> str \<Rightarrow> int \<Rightarrow> int \<Rightarrow> int \<Rightarrow> int \<Rightarrow> DocumentChunk" where
  "DocumentChunk_init txt fname pg cid cstart cend =
     (let t = strip txt
      in \<lparr> text' = t, filename = fname, page_num = pg, chunk_id = cid,
           char_start = cstart, char_end = cend,
           excerpt = (if length t > 100 then py_slice t 0 100 @ [46, 46, 46] else t) \<rparr>)"

record config =
  chunk_size :: int
  chunk_overlap :: int

text \<open>
  The five \<open>rfind\<close> calls of \<open>chunk_text\<close>, in the order of the source:
  period, danda, question mark and exclamation mark, each followed by a space, and
  the double newline.
\<close>

definition sentence_ends :: "str \<Rightarrow> int \<Rightarrow> int \<Rightarrow> int list" where
  "sentence_ends t search_start end_pos =
     [py_rfind t [46, 32] search_start end_pos,
      py_rfind t [2404, 32] search_start end_pos,
      py_rfind t [63, 32] search_start end_pos,
      py_rfind t [33, 32] search_start end_pos,
      py_rfind t [10, 10] search_start end_pos]"

text \<open>The right edge of the window that starts at \<open>start\<close> (the value of \<open>end\<close> at the slice).\<close>

definition window_end :: "config \<Rightarrow> str \<Rightarrow> int \<Rightarrow> int" where
  "window_end cfg t start =
     (let text_len = int (length t);
          end_pos = start + chunk_size cfg
      in if end_pos < text_len then
           (let search_start = max start (end_pos - 100);
                sentence_end = max_list (sentence_ends t search_start end_pos)
            in if sentence_end > start then sentence_end + 1 else end_pos)
         else end_pos)"

text \<open>
  The \<open>while\<close> loop of \<open>chunk_text\<close>. The loop need not end, so the function is
  partial: \<open>None\<close> is a run that never returns.
\<close>

partial_function (option) chunk_loop ::
  "config \<Rightarrow> str \<Rightarrow> str \<Rightarrow> int \<Rightarrow> int \<Rightarrow> int \<Rightarrow> DocumentChunk list \<Rightarrow> DocumentChunk list option"
where
  "chunk_loop cfg t fname pg start cid chunks =
     (if start < int (length t) then
        (let end_pos = window_end cfg t start;
             chunk_txt = strip (py_slice t start end_pos);
             keep = (length chunk_txt > 50);
             chunks' = (if keep
                        then chunks @ [DocumentChunk_init chunk_txt fname pg cid start end_pos]
                        else chunks);
             cid' = (if keep then cid + 1 else cid);
             start' = end_pos - chunk_overlap cfg
         in if start' \<ge> int (length t) - chunk_overlap cfg then Some chunks'
            else chunk_loop cfg t fname pg start' cid' chunks')
      else Some chunks)"

declare chunk_loop.simps [code]

definition chunk_text :: "config \<Rightarrow> str \<Rightarrow> str \<Rightarrow> int \<Rightarrow> int \<Rightarrow> DocumentChunk list option" where
  "chunk_text cfg t fname pg chunk_offset = chunk_loop cfg t fname pg 0 chunk_offset []"

text \<open>
  The runs of the loop that return, told as the list of windows \<open>(start, end)\<close> they
  visit: the loop stops at its head when \<open>start\<close> has reached the end of the text, at
  the \<open>break\<close> after a window, or goes on from \<open>end - chunk_overlap\<close>.
\<close>

inductive chunk_run :: "config \<Rightarrow> str \<Rightarrow> int \<Rightarrow> (int \<times> int) list \<Rightarrow> bool"
  for cfg :: config and t :: str
where
  run_head: "\<not> s < int (length t) \<Longrightarrow> chunk_run cfg t s []"
| run_break: "s < int (length t) \<Longrightarrow> e = window_end cfg t s
     \<Longrightarrow> e - chunk_overlap cfg \<ge> int (length t) - chunk_overlap cfg
     \<Longrightarrow> chunk_run cfg t s [(s, e)]"
| run_next: "s < int (length t) \<Longrightarrow> e = window_end cfg t s
     \<Longrightarrow> \<not> e - chunk_overlap cfg \<ge> int (length t) - chunk_overlap cfg
     \<Longrightarrow> chunk_run cfg t (e - chunk_overlap cfg) ws
     \<Longrightarrow> chunk_run cfg t s ((s, e) # ws)"

text \<open>The chunks the loop appends for a list of windows, numbered from \<open>cid\<close>.\<close>

fun emit :: "str \<Rightarrow> str \<Rightarrow> int \<Rightarrow> int \<Rightarrow> (int \<times> int) list \<Rightarrow> DocumentChunk list" where
  "emit t fname pg cid [] = []"
| "emit t fname pg cid ((s, e) # ws) =
     (if length (strip (py_slice t s e)) > 50
      then DocumentChunk_init (strip (py_slice t s e)) fname pg cid s e # emit t fname pg (cid + 1) ws
      else emit t fname pg cid ws)"

text \<open>A position where one of the five terminator patterns starts.\<close>

definition term_at :: "str \<Rightarrow> int \<Rightarrow> bool" where
  "term_at t p = (matches_at t [46, 32] p \<or> matches_at t [2404, 32] p \<or> matches_at t [63, 32] p
                  \<or> matches_at t [33, 32] p \<or> matches_at t [10, 10] p)"

text \<open>
  The values \<open>start\<close> takes when \<open>0 \<le> chunk_overlap < chunk_size\<close>: never below
  \<open>- chunk_overlap\<close>, and negative only in a text longer than a window.
\<close>

definition start_ok :: "config \<Rightarrow> str \<Rightarrow> int \<Rightarrow> bool" where
  "start_ok cfg t s = (- chunk_overlap cfg \<le> s \<and> (0 \<le> s \<or> chunk_size cfg < int (length t)))"

section \<open>ingest.py: the pipeline\<close>

datatype py_error =
    FileNotFoundError | ValueError | RuntimeError | OSError | IndexError | TypeError
  | AttributeError | UnpicklingError | HTTPException int | RequestValidationError
  | AssertionError

text \<open>
  A PDF as the extraction libraries see it: unreadable (any exception inside
  \<open>extract_text_from_pdf\<close>, which the function catches), or its pages, each with the
  result of \<open>extract_text()\<close> (\<open>[]\<close> for a page without text).
\<close>

datatype pdf = Unreadable | Pages "str list"

record pdf_file =
  pdf_name :: str
  pdf_content :: pdf

definition extract_text_from_pdf :: "pdf \<Rightarrow> (int \<times> str) list" where
  "extract_text_from_pdf doc =
     (case doc of
        Unreadable \<Rightarrow> []
      | Pages ps \<Rightarrow> filter (\<lambda>(page_num, txt). txt \<noteq> []) (zip (map int [1 ..< Suc (length ps)]) ps))"

text \<open>The two nested \<open>for\<close> loops of \<open>process_pdfs\<close>, with \<open>all_chunks\<close> and \<open>chunk_id_offset\<close> passed on.\<close>

fun process_pages ::
  "config \<Rightarrow> str \<Rightarrow> (int \<times> str) list \<Rightarrow> DocumentChunk list \<Rightarrow> int \<Rightarrow> (DocumentChunk list \<times> int) option"
where
  "process_pages cfg name [] all_chunks chunk_id_offset = Some (all_chunks, chunk_id_offset)"
| "process_pages cfg name ((pg, page_text) # pages) all_chunks chunk_id_offset =
     (case chunk_text cfg page_text name pg chunk_id_offset of
        None \<Rightarrow> None
      | Some chunks \<Rightarrow>
          process_pages cfg name pages (all_chunks @ chunks) (chunk_id_offset + int (length chunks)))"

fun process_files ::
  "config \<Rightarrow> pdf_file list \<Rightarrow> DocumentChunk list \<Rightarrow> int \<Rightarrow> (DocumentChunk list \<times> int) option"
where
  "process_files cfg [] all_chunks chunk_id_offset = Some (all_chunks, chunk_id_offset)"
| "process_files cfg (f # fs) all_chunks chunk_id_offset =
     (case process_pages cfg (pdf_name f) (extract_text_from_pdf (pdf_content f))
             all_chunks chunk_id_offset of
        None \<Rightarrow> None
      | Some (all_chunks', chunk_id_offset') \<Rightarrow> process_files cfg fs all_chunks' chunk_id_offset')"

text \<open>
  \<open>process_pdfs\<close>: the data directory is \<open>None\<close> when it does not exist, else the list
  of its \<open>*.pdf\<close> files. The outer \<open>option\<close> is \<open>None\<close> when a \<open>chunk_text\<close> call never returns.
\<close>

definition process_pdfs :: "config \<Rightarrow> pdf_file list option \<Rightarrow> (py_error + DocumentChunk list) option" where
  "process_pdfs cfg data_dir =
     (case data_dir of
        None \<Rightarrow> Some (Inl FileNotFoundError)
      | Some pdf_files \<Rightarrow>
          if pdf_files = [] then Some (Inl ValueError)
          else map_option (\<lambda>(all_chunks, _). Inr all_chunks) (process_files cfg pdf_files [] 0))"

text \<open>
  The embedding model and the vector library are third-party code. A model is what
  the code uses of it: its dimension and \<open>encode\<close>, one vector per text in the order of
  the texts. Vectors are of an abstract type \<open>'v\<close>.
\<close>

record 'v SentenceTransformer =
  get_sentence_embedding_dimension :: nat
  encode :: "str \<Rightarrow> 'v"

text \<open>A flat index holds its dimension and its rows, in the order they were added.\<close>

record 'v faiss_index =
  d :: nat
  rows :: "'v list"


text \<open>
  The library functions the code calls: \<open>normalize_L2\<close> on one row, and \<open>search\<close>,
  which returns \<open>distances[0]\<close> zipped with \<open>indices[0]\<close>, or raises.
\<close>

record 'v faiss =
  normalize_L2 :: "'v \<Rightarrow> 'v"
  search :: "'v faiss_index \<Rightarrow> 'v \<Rightarrow> int \<Rightarrow> py_error + (real \<times> int) list"

definition create_embeddings :: "'v SentenceTransformer \<Rightarrow> DocumentChunk list \<Rightarrow> 'v list" where
  "create_embeddings model chunks = (let texts = map text' chunks in map (encode model) texts)"

definition build_faiss_index :: "'v faiss \<Rightarrow> nat \<Rightarrow> 'v list \<Rightarrow> 'v faiss_index" where
  "build_faiss_index lib embedding_dim embeddings =
     \<lparr> d = embedding_dim, rows = map (normalize_L2 lib) embeddings \<rparr>"

text \<open>
  The metadata dictionary that is pickled. \<open>to_dict\<close> copies the seven fields of a chunk
  under the same keys, so a chunk dictionary is the chunk record itself.
\<close>

record metadata =
  md_chunks :: "DocumentChunk list"
  md_embedding_model :: str
  md_embedding_dim :: nat
  md_chunk_size :: int
  md_chunk_overlap :: int
  md_created_at :: str
  md_num_chunks :: nat

record summary =
  sm_embedding_model :: str
  sm_num_chunks :: nat
  sm_num_documents :: nat
  sm_created_at :: str
  sm_documents :: "(str \<times> nat \<times> int list) list"

text \<open>The grouping loop of \<open>save_index\<close>: one entry per file name, in order of first occurrence.\<close>

fun add_document :: "str \<Rightarrow> int \<Rightarrow> (str \<times> nat \<times> int list) list \<Rightarrow> (str \<times> nat \<times> int list) list" where
  "add_document f p [] = [(f, 1, [p])]"
| "add_document f p ((g, n, ps) # ds) =
     (if g = f then (g, n + 1, List.insert p ps) # ds else (g, n, ps) # add_document f p ds)"

definition group_documents :: "DocumentChunk list \<Rightarrow> (str \<times> nat \<times> int list) list" where
  "group_documents chunks =
     map (\<lambda>(g, n, ps). (g, n, sort ps))
       (fold (\<lambda>chunk. add_document (filename chunk) (page_num chunk)) chunks [])"

text \<open>The files of the index directory, by name.\<close>

datatype 'v stored = FaissIndex "'v faiss_index" | Pickle metadata | Json summary

type_synonym 'v directory = "string \<Rightarrow> 'v stored option"

text \<open>
  What the run finds around it: the model hub (\<open>None\<close> when loading the model raises),
  the data directory, the vector library, which files can be written, and the clock.
\<close>

record 'v ingest_env =
  hub :: "str \<Rightarrow> 'v SentenceTransformer option"
  getenv_EMBEDDING_MODEL :: "str option"
  data_dir :: "pdf_file list option"
  lib :: "'v faiss"
  can_mkdir :: bool
  writable :: "string \<Rightarrow> bool"
  now :: str

definition write_file :: "'v ingest_env \<Rightarrow> string \<Rightarrow> 'v stored \<Rightarrow> 'v directory \<Rightarrow> py_error + 'v directory" where
  "write_file env name content dir =
     (if writable env name then Inr (dir(name \<mapsto> content)) else Inl OSError)"

text \<open>
  \<open>save_index\<close>: three writes into the output directory, in the order of the source.
  The result is the exception raised, if any, and the directory as it is then.
\<close>

definition save_index ::
  "'v ingest_env \<Rightarrow> str \<Rightarrow> nat \<Rightarrow> config \<Rightarrow> 'v faiss_index \<Rightarrow> DocumentChunk list \<Rightarrow> 'v directory
     \<Rightarrow> py_error option \<times> 'v directory"
where
  "save_index env embedding_model_name embedding_dim cfg index chunks dir =
     (if \<not> can_mkdir env then (Some OSError, dir)
      else case write_file env ''faiss_index.bin'' (FaissIndex index) dir of
        Inl err \<Rightarrow> (Some err, dir)
      | Inr dir1 \<Rightarrow>
          (let md = \<lparr> md_chunks = chunks, md_embedding_model = embedding_model_name,
                      md_embedding_dim = embedding_dim, md_chunk_size = chunk_size cfg,
                      md_chunk_overlap = chunk_overlap cfg, md_created_at = now env,
                      md_num_chunks = length chunks \<rparr>
           in case write_file env ''metadata.pkl'' (Pickle md) dir1 of
             Inl err \<Rightarrow> (Some err, dir1)
           | Inr dir2 \<Rightarrow>
               (let sm = \<lparr> sm_embedding_model = embedding_model_name,
                           sm_num_chunks = length chunks,
                           sm_num_documents = card (set (map filename chunks)),
                           sm_created_at = now env,
                           sm_documents = group_documents chunks \<rparr>
                in case write_file env ''index_summary.json'' (Json sm) dir2 of
                  Inl err \<Rightarrow> (Some err, dir2)
                | Inr dir3 \<Rightarrow> (None, dir3))))"

record args =
  arg_embedding_model :: "str option"
  arg_chunk_size :: int
  arg_chunk_overlap :: int

definition default_embedding_model :: str where
  "default_embedding_model = map of_char ''paraphrase-multilingual-mpnet-base-v2''"

text \<open>
  \<open>main\<close>: the exit code and the output directory after the run. Every exception is
  caught by the \<open>except\<close> clause and turned into exit code 1.
\<close>

text \<open>\<open>embedding_model or os.getenv("EMBEDDING_MODEL", default)\<close> of the pipeline's constructor.\<close>

definition embedding_model_name :: "'v ingest_env \<Rightarrow> args \<Rightarrow> str" where
  "embedding_model_name env a =
     (case arg_embedding_model a of
        None \<Rightarrow> (case getenv_EMBEDDING_MODEL env of Some n \<Rightarrow> n | None \<Rightarrow> default_embedding_model)
      | Some n \<Rightarrow>
          if n = [] then (case getenv_EMBEDDING_MODEL env of
                            Some n' \<Rightarrow> n'
                          | None \<Rightarrow> default_embedding_model)
          else n)"

definition main :: "'v ingest_env \<Rightarrow> args \<Rightarrow> 'v directory \<Rightarrow> (int \<times> 'v directory) option" where
  "main env a dir =
     (let cfg = \<lparr> chunk_size = arg_chunk_size a, chunk_overlap = arg_chunk_overlap a \<rparr>
      in case hub env (embedding_model_name env a) of
           None \<Rightarrow> Some (1, dir)
         | Some model \<Rightarrow>
             (case process_pdfs cfg (data_dir env) of
                None \<Rightarrow> None
              | Some (Inl err) \<Rightarrow> Some (1, dir)
              | Some (Inr chunks) \<Rightarrow>
                  if chunks = [] then Some (1, dir)
                  else
                    (let embeddings = create_embeddings model chunks;
                         index = build_faiss_index (lib env)
                                   (get_sentence_embedding_dimension model) embeddings
                     in case save_index env (embedding_model_name env a)
                               (get_sentence_embedding_dimension model) cfg index chunks dir of
                          (Some err, dir') \<Rightarrow> Some (1, dir')
                        | (None, dir') \<Rightarrow> Some (0, dir'))))"

section \<open>server.py: loading and retrieval\<close>

text \<open>
  \<open>RetrievalRequest\<close> after validation, and the JSON body before it: an absent field
  is \<open>None\<close>. The field constraints are those of the \<open>Field\<close> declarations:
  \<open>query\<close> is required with \<open>min_length=1\<close>; \<open>k\<close> defaults to 5 with \<open>ge=1, le=50\<close>;
  \<open>threshold\<close> is optional with \<open>ge=0.0, le=1.0\<close>.
\<close>

record RetrievalRequest =
  query :: str
  k :: int
  lang_hint :: "str option"
  threshold :: "real option"

record request_body =
  body_query :: "str option"
  body_k :: "int option"
  body_lang_hint :: "str option"
  body_threshold :: "real option"

definition validate_request :: "request_body \<Rightarrow> py_error + RetrievalRequest" where
  "validate_request body =
     (case body_query body of
        None \<Rightarrow> Inl RequestValidationError
      | Some q \<Rightarrow>
          if length q < 1 then Inl RequestValidationError
          else
            (let kv = (case body_k body of None \<Rightarrow> 5 | Some n \<Rightarrow> n)
             in if kv < 1 \<or> 50 < kv then Inl RequestValidationError
                else
                  (case body_threshold body of
                     None \<Rightarrow> Inr \<lparr> query = q, k = kv, lang_hint = body_lang_hint body,
                                    threshold = None \<rparr>
                   | Some th \<Rightarrow>
                       if th < 0 \<or> 1 < th then Inl RequestValidationError
                       else Inr \<lparr> query = q, k = kv, lang_hint = body_lang_hint body,
                                  threshold = Some th \<rparr>)))"

text \<open>\<open>DocumentResult\<close> has the seven fields of a chunk and the score.\<close>

record DocumentResult = DocumentChunk +
  score :: real

text \<open>\<open>RetrievalResponse\<close>, without \<open>processing_time_ms\<close>, which is read off the clock.\<close>

record RetrievalResponse =
  resp_query :: str
  results :: "DocumentResult list"
  num_results :: nat
  detected_language :: "str option"

record 'v ServerState =
  index :: "'v faiss_index option"
  metadata :: "metadata option"
  model :: "'v SentenceTransformer option"
  ready :: bool

definition ServerState_init :: "'v ServerState" where
  "ServerState_init = \<lparr> index = None, metadata = None, model = None, ready = False \<rparr>"

text \<open>
  What the server finds at startup: its settings, the model hub, and the index
  directory (\<open>None\<close> when it does not exist).
\<close>

record 'v server_env =
  settings_embedding_model :: str
  model_hub :: "str \<Rightarrow> 'v SentenceTransformer option"
  index_dir :: "'v directory option"

text \<open>
  The loaders change the global state and may raise: the result is the exception, if
  any, and the state as it is then.
\<close>

definition load_embedding_model :: "'v server_env \<Rightarrow> 'v ServerState \<Rightarrow> py_error option \<times> 'v ServerState" where
  "load_embedding_model env st =
     (case model_hub env (settings_embedding_model env) of
        None \<Rightarrow> (Some OSError, st)
      | Some m \<Rightarrow> (None, st\<lparr> model := Some m \<rparr>))"

text \<open>
  The condition of the last statement of \<open>load_index_and_metadata\<close>, which prints a
  warning: \<open>stored_model and stored_model != settings.embedding_model\<close>.
\<close>

definition model_warning :: "'v server_env \<Rightarrow> metadata \<Rightarrow> bool" where
  "model_warning env md =
     (md_embedding_model md \<noteq> [] \<and> md_embedding_model md \<noteq> settings_embedding_model env)"

text \<open>
  \<open>load_index_and_metadata\<close>: the third component of the result tells whether the
  warning about the embedding model was printed.
\<close>

definition load_index_and_metadata ::
  "'v server_env \<Rightarrow> 'v ServerState \<Rightarrow> py_error option \<times> 'v ServerState \<times> bool"
where
  "load_index_and_metadata env st =
     (case index_dir env of
        None \<Rightarrow> (Some RuntimeError, st, False)
      | Some dir \<Rightarrow>
          (case dir ''faiss_index.bin'' of
             None \<Rightarrow> (Some RuntimeError, st, False)
           | Some (Pickle _) \<Rightarrow> (Some RuntimeError, st, False)
           | Some (Json _) \<Rightarrow> (Some RuntimeError, st, False)
           | Some (FaissIndex idx) \<Rightarrow>
               (let st1 = st\<lparr> index := Some idx \<rparr>
                in case dir ''metadata.pkl'' of
                     None \<Rightarrow> (Some RuntimeError, st1, False)
                   | Some (FaissIndex _) \<Rightarrow> (Some UnpicklingError, st1, False)
                   | Some (Json _) \<Rightarrow> (Some UnpicklingError, st1, False)
                   | Some (Pickle md) \<Rightarrow>
                       (None, st1\<lparr> metadata := Some md \<rparr>, model_warning env md))))"

text \<open>
  \<open>startup_event\<close>; the optional speech model changes nothing that retrieval reads.
  The third component of the result tells whether the warning was printed.
\<close>

definition startup_event ::
  "'v server_env \<Rightarrow> 'v ServerState \<Rightarrow> py_error option \<times> 'v ServerState \<times> bool"
where
  "startup_event env st =
     (case load_embedding_model env st of
        (Some err, st1) \<Rightarrow> (Some err, st1, False)
      | (None, st1) \<Rightarrow>
          (case load_index_and_metadata env st1 of
             (Some err, st2, warned) \<Rightarrow> (Some err, st2, warned)
           | (None, st2, warned) \<Rightarrow> (None, st2\<lparr> ready := True \<rparr>, warned)))"

text \<open>\<open>xs[i]\<close> on a Python list: a negative index counts from the end.\<close>

definition py_index :: "'a list \<Rightarrow> int \<Rightarrow> py_error + 'a" where
  "py_index xs i =
     (if 0 \<le> i \<and> i < int (length xs) then Inr (xs ! nat i)
      else if i < 0 \<and> - int (length xs) \<le> i then Inr (xs ! nat (int (length xs) + i))
      else Inl IndexError)"

text \<open>The \<open>for\<close> loop of \<open>retrieve\<close> over the hits \<open>zip(distances[0], indices[0])\<close>.\<close>

fun build_results :: "DocumentChunk list \<Rightarrow> real option \<Rightarrow> (real \<times> int) list \<Rightarrow> py_error + DocumentResult list" where
  "build_results chunks thr [] = Inr []"
| "build_results chunks thr ((distance, chunk_idx) # hits) =
     (if chunk_idx = - 1 then build_results chunks thr hits
      else
        (case py_index chunks chunk_idx of
           Inl err \<Rightarrow> Inl err
         | Inr chunk_data \<Rightarrow>
             (let sc = distance
              in if thr \<noteq> None \<and> sc < the thr then build_results chunks thr hits
                 else
                   (case build_results chunks thr hits of
                      Inl err \<Rightarrow> Inl err
                    | Inr rest \<Rightarrow> Inr (DocumentChunk.extend chunk_data \<lparr> score = sc \<rparr> # rest)))))"


text \<open>
  The handler of \<open>POST /retrieve\<close>. The language detector is optional
  (\<open>None\<close> when the library is absent) and returns \<open>None\<close> when it raises. An
  exception of the index search is not caught.
\<close>

definition retrieve ::
  "'v faiss \<Rightarrow> (str \<Rightarrow> str option) option \<Rightarrow> 'v ServerState \<Rightarrow> RetrievalRequest
     \<Rightarrow> py_error + RetrievalResponse"
where
  "retrieve fl detect st request =
     (if \<not> ready st then Inl (HTTPException 503)
      else
        (let detected_lang = (case detect of None \<Rightarrow> None | Some f \<Rightarrow> f (query request))
         in case model st of
              None \<Rightarrow> Inl AttributeError
            | Some m \<Rightarrow>
                (let query_embedding = normalize_L2 fl (encode m (query request))
                 in case index st of
                      None \<Rightarrow> Inl AttributeError
                    | Some idx \<Rightarrow>
                        (case search fl idx query_embedding (k request) of
                           Inl err \<Rightarrow> Inl err
                         | Inr hits \<Rightarrow>
                             (case metadata st of
                                None \<Rightarrow> (if list_all (\<lambda>h. snd h = - 1) hits
                                           then Inr \<lparr> resp_query = query request, results = [],
                                                      num_results = 0,
                                                      detected_language = detected_lang \<rparr>
                                           else Inl TypeError)
                              | Some md \<Rightarrow>
                                  (case build_results (md_chunks md) (threshold request) hits of
                                     Inl err \<Rightarrow> Inl err
                                   | Inr res \<Rightarrow>
                                       Inr \<lparr> resp_query = query request, results = res,
                                             num_results = length res,
                                             detected_language = detected_lang \<rparr>))))))"

text \<open>The endpoint: the body is validated before the handler is called.\<close>

definition post_retrieve ::
  "'v faiss \<Rightarrow> (str \<Rightarrow> str option) option \<Rightarrow> 'v ServerState \<Rightarrow> request_body
     \<Rightarrow> py_error + RetrievalResponse"
where
  "post_retrieve fl detect st body =
     (case validate_request body of
        Inl err \<Rightarrow> Inl err
      | Inr request \<Rightarrow> retrieve fl detect st request)"

section \<open>The chunker loop as a list of windows\<close>

text \<open>
  A run of \<open>chunk_loop\<close> that returns visits a list of windows and returns the chunks
  it had with those emitted for the windows; and a list of windows that the loop can
  visit is a run that returns.
\<close>

lemma chunk_loop_run:
  assumes "chunk_loop cfg t fname pg s cid chunks = Some r"
  shows "\<exists>ws. chunk_run cfg t s ws \<and> r = chunks @ emit t fname pg cid ws"
proof (rule chunk_loop.raw_induct
    [where P = "\<lambda>cfg t fname pg s cid chunks r.
        \<exists>ws. chunk_run cfg t s ws \<and> r = chunks @ emit t fname pg cid ws", OF _ assms])
  fix f cfg t fname pg s cid chunks r
  assume IH: "\<And>cfg t fname pg s cid chunks r. f cfg t fname pg s cid chunks = Some r \<Longrightarrow>
        \<exists>ws. chunk_run cfg t s ws \<and> r = chunks @ emit t fname pg cid ws"
  assume body: "(if s < int (length t)
      then let end_pos = window_end cfg t s;
               chunk_txt = strip (py_slice t s end_pos);
               keep = 50 < length chunk_txt;
               chunks' =
                 if keep
                 then chunks @
                      [DocumentChunk_init chunk_txt fname pg cid s
                        end_pos]
                 else chunks;
               cid' = if keep then cid + 1 else cid;
               start' = end_pos - chunk_overlap cfg
           in if int (length t) - chunk_overlap cfg \<le> start'
              then Some chunks'
              else f cfg t fname pg start' cid' chunks'
      else Some chunks) = Some r"
  show "\<exists>ws. chunk_run cfg t s ws \<and> r = chunks @ emit t fname pg cid ws"
  proof (cases "s < int (length t)")
    case False
    with body have "r = chunks" by simp
    with False show ?thesis by (auto intro: chunk_run.run_head)
  next
    case True
    define e where "e = window_end cfg t s"
    show ?thesis
    proof (cases "int (length t) - chunk_overlap cfg \<le> e - chunk_overlap cfg")
      case brk: True
      with body True have "r = chunks @ emit t fname pg cid [(s, e)]"
        by (auto simp: Let_def e_def)
      moreover have "chunk_run cfg t s [(s, e)]"
        using True brk by (intro chunk_run.run_break) (auto simp: e_def)
      ultimately show ?thesis by blast
    next
      case cont: False
      let ?keep = "50 < length (strip (py_slice t s e))"
      let ?chunks' = "if ?keep then chunks @ [DocumentChunk_init (strip (py_slice t s e)) fname pg cid s e] else chunks"
      let ?cid' = "if ?keep then cid + 1 else cid"
      from body True cont have "f cfg t fname pg (e - chunk_overlap cfg) ?cid' ?chunks' = Some r"
        by (auto simp: Let_def e_def split: if_splits)
      from IH[OF this] obtain ws where ws: "chunk_run cfg t (e - chunk_overlap cfg) ws"
        and r: "r = ?chunks' @ emit t fname pg ?cid' ws" by blast
      have "chunk_run cfg t s ((s, e) # ws)"
        using True cont ws by (intro chunk_run.run_next) (auto simp: e_def)
      moreover have "r = chunks @ emit t fname pg cid ((s, e) # ws)"
        using r by simp
      ultimately show ?thesis by blast
    qed
  qed
qed

lemma run_chunk_loop:
  assumes "chunk_run cfg t s ws"
  shows "chunk_loop cfg t fname pg s cid chunks = Some (chunks @ emit t fname pg cid ws)"
  using assms
proof (induction arbitrary: cid chunks rule: chunk_run.induct)
  case (run_head s)
  then show ?case by (subst chunk_loop.simps) simp
next
  case (run_break s e)
  then show ?case by (subst chunk_loop.simps) (simp add: Let_def)
next
  case (run_next s e ws)
  show ?case
    apply (subst chunk_loop.simps)
    using run_next.hyps run_next.IH
    apply (simp add: Let_def)
    done
qed

lemma chunk_run_stuck:
  assumes "chunk_run cfg t s ws"
  shows "\<not> (s < int (length t) \<and> window_end cfg t s - chunk_overlap cfg = s
            \<and> \<not> window_end cfg t s - chunk_overlap cfg \<ge> int (length t) - chunk_overlap cfg)"
  using assms by (induction rule: chunk_run.induct) auto

section \<open>What \<open>rfind\<close> and the sentence search return\<close>

lemma adjust_index_range: "0 \<le> n \<Longrightarrow> 0 \<le> adjust_index n i \<and> adjust_index n i \<le> n"
  by (auto simp: adjust_index_def)

lemma adjust_index_id: "0 \<le> i \<Longrightarrow> i \<le> n \<Longrightarrow> adjust_index n i = i"
  by (auto simp: adjust_index_def)

lemma last_match_cases:
  "last_match P a n = - 1 \<or> (a \<le> last_match P a n \<and> last_match P a n < a + int n \<and> P (last_match P a n))"
  by (induction n) auto

lemma last_match_max:
  "a \<le> i \<Longrightarrow> i < a + int n \<Longrightarrow> P i \<Longrightarrow> i \<le> last_match P a n"
proof (induction n)
  case 0
  then show ?case by simp
next
  case (Suc n)
  show ?case
  proof (cases "P (a + int n)")
    case True
    with Suc.prems show ?thesis by simp
  next
    case False
    with Suc.prems have "i \<noteq> a + int n" by auto
    with Suc.prems have "i < a + int n" by simp
    with Suc False show ?thesis by simp
  qed
qed

lemma py_rfind_cases:
  assumes "length sub = 2"
  shows "py_rfind xs sub s e = - 1 \<or>
     (adjust_index (int (length xs)) s \<le> py_rfind xs sub s e
      \<and> py_rfind xs sub s e + 2 \<le> adjust_index (int (length xs)) e
      \<and> matches_at xs sub (py_rfind xs sub s e))"
proof -
  let ?a = "adjust_index (int (length xs)) s" and ?b = "adjust_index (int (length xs)) e"
  let ?n = "nat (?b - 2 - ?a + 1)"
  have eq: "py_rfind xs sub s e = last_match (matches_at xs sub) ?a ?n"
    using assms by (simp add: py_rfind_def Let_def)
  from last_match_cases[of "matches_at xs sub" ?a ?n]
  show ?thesis unfolding eq by (cases "0 \<le> ?b - 2 - ?a + 1") auto
qed

lemma py_rfind_max:
  assumes "length sub = 2"
    and "adjust_index (int (length xs)) s \<le> i" and "i + 2 \<le> adjust_index (int (length xs)) e"
    and "matches_at xs sub i"
  shows "i \<le> py_rfind xs sub s e"
proof -
  let ?a = "adjust_index (int (length xs)) s" and ?b = "adjust_index (int (length xs)) e"
  let ?n = "nat (?b - 2 - ?a + 1)"
  have eq: "py_rfind xs sub s e = last_match (matches_at xs sub) ?a ?n"
    using assms(1) by (simp add: py_rfind_def Let_def)
  have "i < ?a + int ?n" using assms(2,3) by simp
  from last_match_max[of ?a i ?n "matches_at xs sub", OF assms(2) this assms(4)]
  show ?thesis unfolding eq .
qed

lemma max_list_sentence_ends:
  "max_list (sentence_ends t a b) =
     max (py_rfind t [10, 10] a b) (max (py_rfind t [33, 32] a b) (max (py_rfind t [63, 32] a b)
       (max (py_rfind t [2404, 32] a b) (py_rfind t [46, 32] a b))))"
  by (simp add: sentence_ends_def)

lemma sentence_end_cases:
  fixes t :: str
  defines "n \<equiv> int (length t)"
  shows "max_list (sentence_ends t a b) = - 1 \<or>
     (adjust_index n a \<le> max_list (sentence_ends t a b)
      \<and> max_list (sentence_ends t a b) + 2 \<le> adjust_index n b
      \<and> term_at t (max_list (sentence_ends t a b)))"
proof -
  have l: "length [46, 32::nat] = 2" "length [2404, 32::nat] = 2" "length [63, 32::nat] = 2"
    "length [33, 32::nat] = 2" "length [10, 10::nat] = 2" by simp_all
  note c = l[THEN py_rfind_cases, of t a b, folded n_def]
  show ?thesis
    unfolding max_list_sentence_ends term_at_def
    using c by (auto simp: max_def)
qed

lemma sentence_end_max:
  fixes t :: str
  assumes "adjust_index (int (length t)) a \<le> i" and "i + 2 \<le> adjust_index (int (length t)) b"
    and "term_at t i"
  shows "i \<le> max_list (sentence_ends t a b)"
proof -
  have l: "length [46, 32::nat] = 2" "length [2404, 32::nat] = 2" "length [63, 32::nat] = 2"
    "length [33, 32::nat] = 2" "length [10, 10::nat] = 2" by simp_all
  note m = l[THEN py_rfind_max, OF assms(1,2)]
  from assms(3) show ?thesis
    unfolding max_list_sentence_ends term_at_def
    using m by (auto simp: max_def)
qed

lemma sentence_end_ge: "- 1 \<le> max_list (sentence_ends t a b)"
  using sentence_end_cases[of t a b] adjust_index_range[of "int (length t)" a] by auto

section \<open>Windows of the chunker\<close>

lemma window_end_far:
  "int (length t) \<le> s + chunk_size cfg \<Longrightarrow> window_end cfg t s = s + chunk_size cfg"
  by (simp add: window_end_def Let_def)

lemma window_end_near:
  "s + chunk_size cfg < int (length t) \<Longrightarrow>
   window_end cfg t s =
     (if s < max_list (sentence_ends t (max s (s + chunk_size cfg - 100)) (s + chunk_size cfg))
      then max_list (sentence_ends t (max s (s + chunk_size cfg - 100)) (s + chunk_size cfg)) + 1
      else s + chunk_size cfg)"
  by (simp add: window_end_def Let_def)

lemma window_end_bounds:
  assumes cfg: "chunk_overlap cfg < chunk_size cfg" "0 \<le> chunk_overlap cfg"
    and ok: "start_ok cfg t s"
  shows "0 \<le> window_end cfg t s" and "window_end cfg t s \<le> s + chunk_size cfg"
    and "0 \<le> s \<Longrightarrow> s < window_end cfg t s"
proof -
  let ?L = "int (length t)" and ?b = "s + chunk_size cfg"
  let ?se = "max_list (sentence_ends t (max s (?b - 100)) ?b)"
  have pos: "0 < ?b" using cfg ok by (auto simp: start_ok_def)
  have "0 \<le> window_end cfg t s \<and> window_end cfg t s \<le> ?b \<and> (0 \<le> s \<longrightarrow> s < window_end cfg t s)"
  proof (cases "?b < ?L")
    case False
    then show ?thesis using pos cfg by (simp add: window_end_far)
  next
    case True
    then have adj: "adjust_index ?L ?b = ?b" using pos by (simp add: adjust_index_id)
    from sentence_end_cases[of t "max s (?b - 100)" ?b] sentence_end_ge[of t "max s (?b - 100)" ?b]
    show ?thesis using True pos cfg unfolding adj by (auto simp: window_end_near)
  qed
  then show "0 \<le> window_end cfg t s" and "window_end cfg t s \<le> s + chunk_size cfg"
    and "0 \<le> s \<Longrightarrow> s < window_end cfg t s" by auto
qed

lemma start_ok_step:
  assumes cfg: "chunk_overlap cfg < chunk_size cfg" "0 \<le> chunk_overlap cfg"
    and ok: "start_ok cfg t s"
    and nb: "\<not> window_end cfg t s - chunk_overlap cfg \<ge> int (length t) - chunk_overlap cfg"
  shows "start_ok cfg t (window_end cfg t s - chunk_overlap cfg)"
proof -
  have "chunk_size cfg < int (length t)" if "0 \<le> s"
  proof (rule ccontr)
    assume "\<not> chunk_size cfg < int (length t)"
    with that have "int (length t) \<le> s + chunk_size cfg" by simp
    from window_end_far[OF this] nb this show False by simp
  qed
  with ok window_end_bounds(1)[OF cfg ok] show ?thesis
    by (auto simp: start_ok_def)
qed

lemma negative_window_empty:
  assumes cfg: "chunk_overlap cfg < chunk_size cfg" "0 \<le> chunk_overlap cfg"
    and ok: "start_ok cfg t s" and neg: "s < 0"
  shows "py_slice t s (window_end cfg t s) = []"
proof -
  let ?L = "int (length t)" and ?e = "window_end cfg t s"
  from ok neg have small: "chunk_size cfg < ?L" and lo: "- chunk_overlap cfg \<le> s"
    by (auto simp: start_ok_def)
  have e: "0 \<le> ?e" "?e \<le> s + chunk_size cfg"
    using window_end_bounds[OF cfg ok] by auto
  have a: "adjust_index ?L s = s + ?L" using neg lo cfg small by (simp add: adjust_index_def)
  have b: "adjust_index ?L ?e = ?e" using e neg small by (simp add: adjust_index_def)
  show ?thesis unfolding py_slice_def Let_def a b using e small by simp
qed

lemma chunk_run_windows:
  assumes "chunk_run cfg t s ws" and cfg: "chunk_overlap cfg < chunk_size cfg" "0 \<le> chunk_overlap cfg"
    and "start_ok cfg t s"
  shows "\<forall>w \<in> set ws. start_ok cfg t (fst w) \<and> fst w < int (length t) \<and> snd w = window_end cfg t (fst w)"
  using assms(1,4)
proof (induction rule: chunk_run.induct)
  case (run_next s e ws)
  from start_ok_step[OF cfg run_next.prems] run_next.hyps
  have "start_ok cfg t (e - chunk_overlap cfg)" by simp
  with run_next show ?case by simp
qed simp_all

lemma emit_windows:
  "c \<in> set (emit t fname pg cid ws) \<Longrightarrow>
   \<exists>w \<in> set ws. char_start c = fst w \<and> char_end c = snd w \<and> 50 < length (strip (py_slice t (fst w) (snd w)))"
  by (induction t fname pg cid ws rule: emit.induct)
     (auto simp: DocumentChunk_init_def Let_def split: if_splits)

lemma emitted_window:
  assumes cfg: "chunk_overlap cfg < chunk_size cfg" "0 \<le> chunk_overlap cfg"
    and ret: "chunk_text cfg t fname pg chunk_offset = Some chunks"
    and c: "c \<in> set chunks"
  shows "0 \<le> char_start c" and "char_start c < int (length t)"
    and "char_end c = window_end cfg t (char_start c)"
    and "start_ok cfg t (char_start c)"
proof -
  from ret obtain ws where run: "chunk_run cfg t 0 ws" and chunks: "chunks = emit t fname pg chunk_offset ws"
    unfolding chunk_text_def using chunk_loop_run by fastforce
  have ok0: "start_ok cfg t 0" by (simp add: start_ok_def cfg)
  from c chunks emit_windows obtain w where w: "w \<in> set ws" "char_start c = fst w" "char_end c = snd w"
    and len: "50 < length (strip (py_slice t (fst w) (snd w)))" by blast
  from chunk_run_windows[OF run cfg ok0] w(1)
  have ok: "start_ok cfg t (fst w)" and lt: "fst w < int (length t)" and e: "snd w = window_end cfg t (fst w)"
    by auto
  show "0 \<le> char_start c"
  proof (rule ccontr)
    assume "\<not> 0 \<le> char_start c"
    then have "py_slice t (fst w) (snd w) = []"
      unfolding e using negative_window_empty[OF cfg ok] w(2) by simp
    with len show False by (simp add: strip_def)
  qed
  show "char_start c < int (length t)" using lt w by simp
  show "char_end c = window_end cfg t (char_start c)" using e w by simp
  show "start_ok cfg t (char_start c)" using ok w by simp
qed

lemma window_end_nonneg:
  fixes t :: str
  assumes "0 \<le> s" and "s + chunk_size cfg < int (length t)" and "0 < chunk_size cfg"
  defines "se \<equiv> max_list (sentence_ends t (max s (s + chunk_size cfg - 100)) (s + chunk_size cfg))"
  shows "window_end cfg t s = (if s < se then se + 1 else s + chunk_size cfg)"
    and "se = - 1 \<or> (max s (s + chunk_size cfg - 100) \<le> se \<and> se + 2 \<le> s + chunk_size cfg \<and> term_at t se)"
    and "\<And>p. max s (s + chunk_size cfg - 100) \<le> p \<Longrightarrow> p + 2 \<le> s + chunk_size cfg \<Longrightarrow> term_at t p
           \<Longrightarrow> p \<le> se"
proof -
  let ?L = "int (length t)" and ?a = "max s (s + chunk_size cfg - 100)" and ?b = "s + chunk_size cfg"
  have a: "adjust_index ?L ?a = ?a" and b: "adjust_index ?L ?b = ?b"
    using assms(1-3) by (auto simp: adjust_index_def)
  show "window_end cfg t s = (if s < se then se + 1 else s + chunk_size cfg)"
    using assms(2) by (simp add: window_end_near se_def)
  show "se = - 1 \<or> (?a \<le> se \<and> se + 2 \<le> ?b \<and> term_at t se)"
    using sentence_end_cases[of t ?a ?b] unfolding a b se_def .
  show "\<And>p. ?a \<le> p \<Longrightarrow> p + 2 \<le> ?b \<Longrightarrow> term_at t p \<Longrightarrow> p \<le> se"
    using sentence_end_max[of t ?a _ ?b] unfolding a b se_def by blast
qed

section \<open>The order of the windows of a run\<close>












section \<open>The windows of a run cover the text\<close>



section \<open>Evaluating the chunker on a text without terminators\<close>

lemma matches_at_set: "matches_at xs sub i \<Longrightarrow> set sub \<subseteq> set xs"
proof -
  assume "matches_at xs sub i"
  then have "sub = take (length sub) (drop (nat i) xs)" by (simp add: matches_at_def)
  then have "set sub \<subseteq> set (drop (nat i) xs)" by (metis set_take_subset)
  also have "\<dots> \<subseteq> set xs" by (rule set_drop_subset)
  finally show ?thesis .
qed

lemma py_rfind_absent:
  assumes "length sub = 2" and "hd sub \<notin> set xs"
  shows "py_rfind xs sub s e = - 1"
proof -
  from assms(1) have "sub \<noteq> []" by auto
  then have "hd sub \<in> set sub" by simp
  with assms(2) matches_at_set have "\<not> matches_at xs sub i" for i by blast
  with py_rfind_cases[OF assms(1), of xs s e] show ?thesis by blast
qed

lemma sentence_ends_absent:
  assumes "46 \<notin> set t" "2404 \<notin> set t" "63 \<notin> set t" "33 \<notin> set t" "10 \<notin> set t"
  shows "max_list (sentence_ends t a b) = - 1"
  using assms by (simp add: max_list_sentence_ends py_rfind_absent)

lemma dropWhile_id: "xs \<noteq> [] \<Longrightarrow> \<not> P (hd xs) \<Longrightarrow> dropWhile P xs = xs"
  by (cases xs) auto

lemma strip_id: "xs \<noteq> [] \<Longrightarrow> \<not> py_isspace (hd xs) \<Longrightarrow> \<not> py_isspace (last xs) \<Longrightarrow> strip xs = xs"
  by (simp add: strip_def dropWhile_id hd_rev)

lemma window_end_plain:
  assumes "46 \<notin> set t" "2404 \<notin> set t" "63 \<notin> set t" "33 \<notin> set t" "10 \<notin> set t"
    and "- 1 \<le> s"
  shows "window_end cfg t s = s + chunk_size cfg"
  using assms by (simp add: window_end_def Let_def sentence_ends_absent)

lemma chunk_run_nextI:
  assumes "s < int (length t)" and "window_end cfg t s = e"
    and "e < int (length t)" and "e - chunk_overlap cfg = s'" and "chunk_run cfg t s' ws"
  shows "chunk_run cfg t s ((s, e) # ws)"
  using assms by (intro chunk_run.run_next) auto

lemma chunk_run_breakI:
  assumes "s < int (length t)" and "window_end cfg t s = e" and "int (length t) \<le> e"
  shows "chunk_run cfg t s [(s, e)]"
  using assms by (intro chunk_run.run_break) auto

text \<open>
  A page of 140 letters \<open>a\<close> with \<open>chunk_size = 100\<close> and \<open>chunk_overlap = 20\<close>: the
  windows are \<open>[0, 100)\<close> and \<open>[80, 180)\<close>, and both slices are kept.
\<close>

lemma chunk_text_sample:
  "chunk_text \<lparr>chunk_size = 100, chunk_overlap = 20\<rparr> (replicate 140 97) fname pg off =
     Some [\<lparr>text' = replicate 100 97, filename = fname, page_num = pg, chunk_id = off,
             char_start = 0, char_end = 100, excerpt = replicate 100 97\<rparr>,
           \<lparr>text' = replicate 60 97, filename = fname, page_num = pg, chunk_id = off + 1,
             char_start = 80, char_end = 180, excerpt = replicate 60 97\<rparr>]"
proof -
  let ?cfg = "\<lparr>chunk_size = 100, chunk_overlap = 20\<rparr>" and ?t = "replicate 140 (97::nat)"
  let ?ws = "[(0, 100), (80, 180 :: int)]"
  have w: "window_end ?cfg ?t 0 = 100" "window_end ?cfg ?t 80 = 180"
    by (simp_all add: window_end_plain)
  have run: "chunk_run ?cfg ?t 0 ?ws"
    by (rule chunk_run_nextI[where s' = 80], simp, simp add: w, simp, simp, rule chunk_run_breakI)
       (simp_all add: w)
  have sl: "py_slice ?t 0 100 = replicate 100 97" "py_slice ?t 80 180 = replicate 60 97"
    by (simp_all add: py_slice_def adjust_index_def)
  have st: "strip (replicate 100 97) = replicate 100 97" "strip (replicate 60 97) = replicate 60 97"
    by (rule strip_id; simp add: py_isspace_def)+
  show ?thesis
    using run_chunk_loop[OF run, of fname pg off "[]"]
    by (simp add: chunk_text_def sl st DocumentChunk_init_def Let_def)
qed

lemma matches_at_hd:
  assumes "matches_at xs (a # sub) i"
  shows "0 \<le> i" and "nat i < length xs" and "xs ! nat i = a"
proof -
  from assms have i: "0 \<le> i" and tk: "take (Suc (length sub)) (drop (nat i) xs) = a # sub"
    by (auto simp: matches_at_def)
  from tk have ne: "drop (nat i) xs \<noteq> []" by auto
  then show lt: "nat i < length xs" by simp
  from tk have "hd (drop (nat i) xs) = a" by (cases "drop (nat i) xs") auto
  then show "xs ! nat i = a" using lt by (simp add: hd_drop_conv_nth)
  show "0 \<le> i" by (rule i)
qed

lemma sample_terminator: "term_at (replicate 60 97 @ [46, 32] @ replicate 60 97) p = (p = 60)"
proof
  let ?T = "replicate 60 (97::nat) @ [46, 32] @ replicate 60 97"
  assume "term_at ?T p"
  then consider "matches_at ?T [46, 32] p" | "matches_at ?T [2404, 32] p" | "matches_at ?T [63, 32] p"
    | "matches_at ?T [33, 32] p" | "matches_at ?T [10, 10] p"
    by (auto simp: term_at_def)
  then show "p = 60"
  proof cases
    case 1
    from matches_at_hd[OF 1] have "0 \<le> p" "nat p < 122" "?T ! nat p = 46" by simp_all
    then show ?thesis by (auto simp: nth_append nth_Cons' split: if_splits)
  qed (auto dest: matches_at_set)
next
  assume "p = 60"
  then show "term_at (replicate 60 97 @ [46, 32] @ replicate 60 97) p"
    by (simp add: term_at_def matches_at_def)
qed

lemma window_end_sole_terminator:
  fixes t :: str
  assumes "\<And>p. term_at t p = (p = q)" and "0 \<le> s" and "s + chunk_size cfg < int (length t)"
    and "0 < chunk_size cfg" and "s < q" and "s + chunk_size cfg - 100 \<le> q" and "q + 2 \<le> s + chunk_size cfg"
  shows "window_end cfg t s = q + 1"
proof -
  define se where "se = max_list (sentence_ends t (max s (s + chunk_size cfg - 100)) (s + chunk_size cfg))"
  note n = window_end_nonneg[OF assms(2,3,4), folded se_def]
  have "q \<le> se" using n(3)[of q] assms by simp
  moreover from this n(2) assms(2,5) have "term_at t se" by auto
  ultimately have "se = q" using assms(1) by simp
  with n(1) assms(5) show ?thesis by simp
qed

text \<open>
  A page of 60 letters \<open>a\<close>, a period, a space and 60 more letters, with
  \<open>chunk_size = 100\<close> and \<open>chunk_overlap = 20\<close>: the first window is cut after the
  period at index 60, the second runs to the end of the text.
\<close>

lemma chunk_text_sentence_sample:
  "chunk_text \<lparr>chunk_size = 100, chunk_overlap = 20\<rparr> (replicate 60 97 @ [46, 32] @ replicate 60 97)
      fname pg off =
     Some [\<lparr>text' = replicate 60 97 @ [46], filename = fname, page_num = pg, chunk_id = off,
             char_start = 0, char_end = 61, excerpt = replicate 60 97 @ [46]\<rparr>,
           \<lparr>text' = replicate 19 97 @ [46, 32] @ replicate 60 97, filename = fname, page_num = pg,
             chunk_id = off + 1, char_start = 41, char_end = 141,
             excerpt = replicate 19 97 @ [46, 32] @ replicate 60 97\<rparr>]"
proof -
  let ?cfg = "\<lparr>chunk_size = 100, chunk_overlap = 20\<rparr>"
  define t :: str where "t = replicate 60 97 @ [46, 32] @ replicate 60 97"
  define x1 :: str where "x1 = replicate 60 97 @ [46]"
  define x2 :: str where "x2 = replicate 19 97 @ [46, 32] @ replicate 60 97"
  have len: "int (length t) = 122" by (simp add: t_def)
  have tm: "\<And>p. term_at t p = (p = 60)" unfolding t_def by (rule sample_terminator)
  have w0: "window_end ?cfg t 0 = 61"
    using window_end_sole_terminator[of t 60 0 ?cfg] tm len by simp
  have w1: "window_end ?cfg t 41 = 141" by (simp add: window_end_far len)
  have run: "chunk_run ?cfg t 0 [(0, 61), (41, 141)]"
  proof (rule chunk_run_nextI[where s' = 41])
    show "window_end ?cfg t 0 = 61" by (rule w0)
    show "chunk_run ?cfg t 41 [(41, 141)]"
      by (rule chunk_run_breakI[OF _ w1]) (simp_all add: len)
  qed (simp_all add: len)
  have sl: "py_slice t 0 61 = x1" "py_slice t 41 141 = x2"
    by (simp_all add: py_slice_def adjust_index_def t_def x1_def x2_def)
  have st: "strip x1 = x1" "strip x2 = x2"
    unfolding x1_def x2_def by (rule strip_id; simp add: py_isspace_def hd_append)+
  have lx: "length x1 = 61" "length x2 = 81" by (simp_all add: x1_def x2_def)
  have "chunk_text ?cfg t fname pg off =
     Some [\<lparr>text' = x1, filename = fname, page_num = pg, chunk_id = off,
             char_start = 0, char_end = 61, excerpt = x1\<rparr>,
           \<lparr>text' = x2, filename = fname, page_num = pg,
             chunk_id = off + 1, char_start = 41, char_end = 141, excerpt = x2\<rparr>]"
    using run_chunk_loop[OF run, of fname pg off "[]"]
    by (simp add: chunk_text_def sl st lx DocumentChunk_init_def Let_def)
  then show ?thesis unfolding t_def x1_def x2_def .
qed

section \<open>Chunk identifiers across pages and files\<close>

lemma count_from: "map (\<lambda>i. int a + int i) [0..<b] = map int [a..<a + b]"
  by (induction b) auto

lemma emit_chunk_ids:
  "map chunk_id (emit t fname pg cid ws) = map (\<lambda>i. cid + int i) [0..<length (emit t fname pg cid ws)]"
proof (induction ws arbitrary: cid)
  case Nil
  then show ?case by simp
next
  case (Cons w ws)
  obtain s e where w: "w = (s, e)" by (cases w)
  show ?case
  proof (cases "50 < length (strip (py_slice t s e))")
    case True
    have "map chunk_id (emit t fname pg cid (w # ws)) = cid # map chunk_id (emit t fname pg (cid + 1) ws)"
      using True by (simp add: w DocumentChunk_init_def Let_def)
    also have "\<dots> = cid # map (\<lambda>i. cid + 1 + int i) [0..<length (emit t fname pg (cid + 1) ws)]"
      by (simp only: Cons.IH)
    also have "\<dots> = map (\<lambda>i. cid + int i) [0..<Suc (length (emit t fname pg (cid + 1) ws))]"
      by (simp add: map_upt_Suc del: upt_Suc)
    finally show ?thesis using True by (simp add: w)
  next
    case False
    then show ?thesis using Cons.IH[of cid] by (simp add: w)
  qed
qed

lemma chunk_text_ids:
  assumes "chunk_text cfg t fname pg off = Some chunks"
  shows "map chunk_id chunks = map (\<lambda>i. off + int i) [0..<length chunks]"
proof -
  from assms obtain ws where "chunks = emit t fname pg off ws"
    unfolding chunk_text_def using chunk_loop_run by fastforce
  then show ?thesis using emit_chunk_ids by simp
qed

lemma process_pages_ids:
  assumes "process_pages cfg name pages all_chunks off = Some (all_chunks', off')"
    and "map chunk_id all_chunks = map int [0..<length all_chunks]" and "off = int (length all_chunks)"
  shows "map chunk_id all_chunks' = map int [0..<length all_chunks'] \<and> off' = int (length all_chunks')"
  using assms
proof (induction pages arbitrary: all_chunks off)
  case Nil
  then show ?case by auto
next
  case (Cons p pages)
  obtain pg ptext where p: "p = (pg, ptext)" by (cases p)
  from Cons.prems(1) obtain chunks where ct: "chunk_text cfg ptext name pg off = Some chunks"
    and rest: "process_pages cfg name pages (all_chunks @ chunks) (off + int (length chunks)) = Some (all_chunks', off')"
    by (auto simp: p split: option.splits)
  have "map chunk_id (all_chunks @ chunks) = map int [0..<length all_chunks] @ map int [length all_chunks..<length all_chunks + length chunks]"
    using chunk_text_ids[OF ct] Cons.prems(2,3) by (simp add: count_from)
  also have "\<dots> = map int [0..<length (all_chunks @ chunks)]"
    using upt_add_eq_append[of 0 "length all_chunks" "length chunks"] by simp
  finally have ids: "map chunk_id (all_chunks @ chunks) = map int [0..<length (all_chunks @ chunks)]" .
  show ?case
    by (rule Cons.IH[OF rest ids]) (simp add: Cons.prems(3))
qed

lemma process_files_ids:
  assumes "process_files cfg fs all_chunks off = Some (all_chunks', off')"
    and "map chunk_id all_chunks = map int [0..<length all_chunks]" and "off = int (length all_chunks)"
  shows "map chunk_id all_chunks' = map int [0..<length all_chunks']"
  using assms
proof (induction fs arbitrary: all_chunks off)
  case Nil
  then show ?case by simp
next
  case (Cons f fs)
  from Cons.prems(1) obtain all1 off1 where
    pp: "process_pages cfg (pdf_name f) (extract_text_from_pdf (pdf_content f)) all_chunks off = Some (all1, off1)"
    and rest: "process_files cfg fs all1 off1 = Some (all_chunks', off')"
    by (auto split: option.splits)
  from process_pages_ids[OF pp Cons.prems(2,3)] Cons.IH[OF rest] show ?case by simp
qed

lemma process_pdfs_ids:
  assumes "process_pdfs cfg dd = Some (Inr chunks)"
  shows "map chunk_id chunks = map int [0..<length chunks]"
proof -
  from assms obtain fs off where "process_files cfg fs [] 0 = Some (chunks, off)"
    by (auto simp: process_pdfs_def split: option.splits if_splits)
  from process_files_ids[OF this] show ?thesis by simp
qed

section \<open>The result loop\<close>

lemma build_results_threshold:
  "build_results chunks (Some th) hits =
     map_sum id (filter (\<lambda>r. th \<le> score r)) (build_results chunks None hits)"
proof (induction hits)
  case Nil
  then show ?case by simp
next
  case (Cons h hits)
  obtain distance chunk_idx where h: "h = (distance, chunk_idx)" by (cases h)
  show ?case
  proof (cases "chunk_idx = - 1")
    case True
    with Cons show ?thesis by (simp add: h)
  next
    case False
    show ?thesis
    proof (cases "py_index chunks chunk_idx")
      case (Inl err)
      with False show ?thesis by (simp add: h)
    next
      case (Inr chunk_data)
      show ?thesis
      proof (cases "build_results chunks None hits")
        case bl: (Inl err)
        with False Inr Cons show ?thesis by (simp add: h)
      next
        case br: (Inr rest)
        with False Inr Cons show ?thesis
          by (simp add: h DocumentChunk.defs not_less)
      qed
    qed
  qed
qed



section \<open>What \<open>save_index\<close> leaves in the directory\<close>


section \<open>Configurations for which the chunker returns\<close>

lemma chunk_run_exists:
  assumes wide: "chunk_overlap cfg + 100 \<le> chunk_size cfg" and ov: "0 \<le> chunk_overlap cfg"
    and s0: "0 \<le> s"
  shows "\<exists>ws. chunk_run cfg t s ws"
  using s0
proof (induction "nat (int (length t) - s)" arbitrary: s rule: less_induct)
  case less
  let ?L = "int (length t)" and ?cs = "chunk_size cfg" and ?ov = "chunk_overlap cfg"
  from wide ov have pos: "0 < ?cs" by simp
  show ?case
  proof (cases "s < ?L")
    case False
    then show ?thesis by (auto intro: chunk_run.run_head)
  next
    case True
    let ?e = "window_end cfg t s"
    show ?thesis
    proof (cases "?L \<le> ?e")
      case brk: True
      with True show ?thesis by (auto intro: chunk_run_breakI)
    next
      case False
      then have eL: "?e < ?L" by simp
      have near: "s + ?cs < ?L"
      proof (rule ccontr)
        assume "\<not> s + ?cs < ?L"
        then show False using eL by (simp add: window_end_far)
      qed
      define se where "se = max_list (sentence_ends t (max s (s + ?cs - 100)) (s + ?cs))"
      note n = window_end_nonneg[OF less.prems near pos, folded se_def]
      have adv: "s + ?cs - 99 \<le> ?e"
        using n(1,2) less.prems by (auto split: if_splits)
      then have next_gt: "s < ?e - ?ov" using wide by simp
      then have "nat (?L - (?e - ?ov)) < nat (?L - s)" using True by simp
      moreover have "0 \<le> ?e - ?ov" using next_gt less.prems by simp
      ultimately obtain ws where "chunk_run cfg t (?e - ?ov) ws"
        using less.hyps by blast
      with True eL show ?thesis by (auto intro: chunk_run_nextI)
    qed
  qed
qed

text \<open>
  With \<open>chunk_size \<ge> chunk_overlap + 100\<close>, as with the defaults 700 and 100, every
  window ends at least one character after the next start, and \<open>chunk_text\<close> returns.
\<close>

lemma chunk_text_returns:
  assumes "chunk_overlap cfg + 100 \<le> chunk_size cfg" and "0 \<le> chunk_overlap cfg"
  shows "\<exists>chunks. chunk_text cfg t fname pg chunk_offset = Some chunks"
proof -
  from chunk_run_exists[OF assms, of 0 t] obtain ws where "chunk_run cfg t 0 ws" by auto
  from run_chunk_loop[OF this] show ?thesis by (simp add: chunk_text_def)
qed






text \<open>
  C5 (the chunker terminates for every text when \<open>chunk_size > 0\<close> and
  \<open>0 \<le> overlap < chunk_size\<close>). The code does not: with \<open>chunk_size = 10\<close>,
  \<open>chunk_overlap = 2\<close> and the text \<open>"a. bbbbbbbbbbbbbbbbbbbb"\<close> the first window is
  cut after the period at index 1, so \<open>end = 2\<close> and the next \<open>start\<close> is \<open>2 - 2 = 0\<close>
  again; the \<open>break\<close> test \<open>0 \<ge> 23 - 2\<close> fails and the loop never returns.
\<close>

theorem chunk_text_diverges:
  "chunk_text \<lparr>chunk_size = 10, chunk_overlap = 2\<rparr> ([97, 46, 32] @ replicate 20 98) fname pg off = None"
proof -
  let ?cfg = "\<lparr>chunk_size = 10, chunk_overlap = 2\<rparr>"
  let ?t = "[97, 46, 32] @ replicate 20 (98::nat)"
  have w: "window_end ?cfg ?t 0 = 2"
    by code_simp
  show ?thesis
  proof (cases "chunk_text ?cfg ?t fname pg off")
    case (Some r)
    then obtain ws where "chunk_run ?cfg ?t 0 ws"
      unfolding chunk_text_def using chunk_loop_run by blast
    from chunk_run_stuck[OF this] w show ?thesis by simp
  qed simp
qed

text \<open>
  C9 (every emitted chunk has \<open>0 \<le> char_start < char_end \<le> L\<close> for a text of length
  \<open>L\<close>). The bound \<open>char_end \<le> L\<close> fails: \<open>char_end\<close> is the window's right edge
  \<open>start + chunk_size\<close>, which is not clipped to the text. A text of 60 letters with the
  default configuration gives one chunk with \<open>char_end = 700\<close>.
\<close>

theorem char_end_beyond_text:
  "chunk_text \<lparr>chunk_size = 700, chunk_overlap = 100\<rparr> (replicate 60 97) [] 1 0 =
     Some [\<lparr>text' = replicate 60 97, filename = [], page_num = 1, chunk_id = 0,
            char_start = 0, char_end = 700, excerpt = replicate 60 97\<rparr>]
   \<and> \<not> (700 \<le> int (length (replicate 60 (97::nat))))"
proof -
  let ?cfg = "\<lparr>chunk_size = 700, chunk_overlap = 100\<rparr>" and ?t = "replicate 60 (97::nat)"
  have w0: "window_end ?cfg ?t 0 = 700" by (simp add: window_end_def)
  have run: "chunk_run ?cfg ?t 0 [(0, 700)]"
    by (rule chunk_run_breakI) (simp_all add: w0)
  have sl: "py_slice ?t 0 700 = ?t" by (simp add: py_slice_def adjust_index_def)
  have st: "strip ?t = ?t" by (rule strip_id) (simp_all add: py_isspace_def)
  show ?thesis using run_chunk_loop[OF run, of "[]" 1 0 "[]"]
    by (simp add: chunk_text_def sl st DocumentChunk_init_def Let_def)
qed

text \<open>
  C9, amended: when \<open>0 \<le> chunk_overlap < chunk_size\<close>, every chunk that \<open>chunk_text\<close>
  returns has \<open>0 \<le> char_start < char_end \<le> char_start + chunk_size\<close> and
  \<open>char_start < L\<close>; and \<open>char_end \<le> L\<close> unless the window was not cut, in which case
  \<open>char_end = char_start + chunk_size\<close>.
\<close>

theorem char_bounds:
  assumes cfg: "chunk_overlap cfg < chunk_size cfg" "0 \<le> chunk_overlap cfg"
    and ret: "chunk_text cfg t fname pg chunk_offset = Some chunks"
    and c: "c \<in> set chunks"
  shows "0 \<le> char_start c \<and> char_start c < char_end c \<and> char_start c < int (length t)
         \<and> char_end c \<le> char_start c + chunk_size cfg
         \<and> (char_end c \<le> int (length t) \<or> char_end c = char_start c + chunk_size cfg)"
proof -
  from ret obtain ws where run: "chunk_run cfg t 0 ws" and chunks: "chunks = emit t fname pg chunk_offset ws"
    unfolding chunk_text_def using chunk_loop_run by fastforce
  have ok0: "start_ok cfg t 0" by (simp add: start_ok_def cfg)
  from c chunks emit_windows obtain w where w: "w \<in> set ws" "char_start c = fst w" "char_end c = snd w"
    and len: "50 < length (strip (py_slice t (fst w) (snd w)))" by blast
  from chunk_run_windows[OF run cfg ok0] w(1)
  have ok: "start_ok cfg t (fst w)" and lt: "fst w < int (length t)" and e: "snd w = window_end cfg t (fst w)"
    by auto
  have nonneg: "0 \<le> fst w"
  proof (rule ccontr)
    assume "\<not> 0 \<le> fst w"
    then have "py_slice t (fst w) (snd w) = []"
      unfolding e using negative_window_empty[OF cfg ok] by simp
    with len show False by (simp add: strip_def)
  qed
  have "snd w \<le> int (length t) \<or> snd w = fst w + chunk_size cfg"
  proof (cases "fst w + chunk_size cfg < int (length t)")
    case True
    with window_end_bounds(2)[OF cfg ok] e show ?thesis by simp
  next
    case False
    then show ?thesis using e by (simp add: window_end_far)
  qed
  with window_end_bounds[OF cfg ok] nonneg lt e w show ?thesis by simp
qed

theorem char_bounds_witness:
  "chunk_text \<lparr>chunk_size = 100, chunk_overlap = 20\<rparr> (replicate 140 97) [] 1 0 =
     Some [\<lparr>text' = replicate 100 97, filename = [], page_num = 1, chunk_id = 0,
             char_start = 0, char_end = 100, excerpt = replicate 100 97\<rparr>,
           \<lparr>text' = replicate 60 97, filename = [], page_num = 1, chunk_id = 1,
             char_start = 80, char_end = 180, excerpt = replicate 60 97\<rparr>]
   \<and> (0::int) \<le> 80 \<and> (80::int) < 180 \<and> 80 < int (length (replicate 140 (97::nat)))
   \<and> (180::int) \<le> 80 + chunk_size \<lparr>chunk_size = 100, chunk_overlap = 20\<rparr>
   \<and> (180 \<le> int (length (replicate 140 (97::nat)))
        \<or> (180::int) = 80 + chunk_size \<lparr>chunk_size = 100, chunk_overlap = 20\<rparr>)"
proof -
  let ?cfg = "\<lparr>chunk_size = 100, chunk_overlap = 20\<rparr>" and ?t = "replicate 140 (97::nat)"
  let ?c1 = "\<lparr>text' = replicate 100 97, filename = [], page_num = 1, chunk_id = 0,
             char_start = 0, char_end = 100, excerpt = replicate 100 97\<rparr>"
  let ?c2 = "\<lparr>text' = replicate 60 97, filename = [], page_num = 1, chunk_id = 1,
             char_start = 80, char_end = 180, excerpt = replicate 60 97\<rparr>"
  have ret: "chunk_text ?cfg ?t [] 1 0 = Some [?c1, ?c2]"
    using chunk_text_sample[of "[]" 1 0] by simp
  from char_bounds[of ?cfg ?t "[]" 1 0 "[?c1, ?c2]" ?c2] ret
  show ?thesis by simp
qed

text \<open>
  C4: after a full ingestion run (\<open>main\<close> returns 0) the chunks that \<open>process_pdfs\<close>
  produced carry the identifiers \<open>0, 1, ..., N - 1\<close> in list order; the pickled metadata
  holds that same list, and the rows of the written index are the normalised embeddings
  of the chunk texts, computed by the loaded model, in that same order.
\<close>

theorem ingestion_ordinals_dense:
  fixes env :: "'v ingest_env"
  assumes "main env a dir = Some (0, dir')"
  shows "\<exists>chunks idx md (m :: 'v SentenceTransformer) name.
     hub env name = Some m
     \<and> process_pdfs \<lparr>chunk_size = arg_chunk_size a, chunk_overlap = arg_chunk_overlap a\<rparr> (data_dir env)
       = Some (Inr chunks)
     \<and> map chunk_id chunks = map int [0..<length chunks]
     \<and> dir' ''metadata.pkl'' = Some (Pickle md) \<and> md_chunks md = chunks
     \<and> md_num_chunks md = length chunks
     \<and> dir' ''faiss_index.bin'' = Some (FaissIndex idx)
     \<and> rows idx = map (\<lambda>c. normalize_L2 (lib env) (encode m (text' c))) chunks"
proof -
  let ?cfg = "\<lparr>chunk_size = arg_chunk_size a, chunk_overlap = arg_chunk_overlap a\<rparr>"
  from assms obtain name m chunks where m: "hub env name = Some m"
    and pp: "process_pdfs ?cfg (data_dir env) = Some (Inr chunks)"
    and sv: "save_index env name (get_sentence_embedding_dimension m) ?cfg
               (build_faiss_index (lib env) (get_sentence_embedding_dimension m) (create_embeddings m chunks))
               chunks dir = (None, dir')"
    by (auto simp: main_def Let_def split: option.splits sum.splits if_splits prod.splits)
  let ?idx = "build_faiss_index (lib env) (get_sentence_embedding_dimension m) (create_embeddings m chunks)"
  from sv obtain md where md: "dir' ''metadata.pkl'' = Some (Pickle md)" "md_chunks md = chunks"
    "md_num_chunks md = length chunks" "dir' ''faiss_index.bin'' = Some (FaissIndex ?idx)"
    by (auto simp: save_index_def write_file_def Let_def split: if_splits)
  have rws: "rows ?idx = map (\<lambda>c. normalize_L2 (lib env) (encode m (text' c))) chunks"
    by (simp add: build_faiss_index_def create_embeddings_def comp_def)
  show ?thesis
  proof (intro exI conjI)
    show "hub env name = Some m" by (rule m)
    show "process_pdfs ?cfg (data_dir env) = Some (Inr chunks)" by (rule pp)
    show "map chunk_id chunks = map int [0..<length chunks]" by (rule process_pdfs_ids[OF pp])
    show "dir' ''metadata.pkl'' = Some (Pickle md)" by (rule md(1))
    show "md_chunks md = chunks" by (rule md(2))
    show "md_num_chunks md = length chunks" by (rule md(3))
    show "dir' ''faiss_index.bin'' = Some (FaissIndex ?idx)" by (rule md(4))
    show "rows ?idx = map (\<lambda>c. normalize_L2 (lib env) (encode m (text' c))) chunks" by (rule rws)
  qed
qed

theorem ingestion_ordinals_dense_witness:
  "\<exists>dir'.
     main \<lparr>hub = (\<lambda>n. Some \<lparr>get_sentence_embedding_dimension = 1, encode = length\<rparr>),
           getenv_EMBEDDING_MODEL = None,
           data_dir = Some [\<lparr>pdf_name = [100], pdf_content = Pages [replicate 140 97]\<rparr>],
           lib = \<lparr>normalize_L2 = Suc, search = (\<lambda>idx q kk. Inr [])\<rparr>,
           can_mkdir = True, writable = (\<lambda>n. True), now = []\<rparr>
          \<lparr>arg_embedding_model = None, arg_chunk_size = 100, arg_chunk_overlap = 20\<rparr>
          Map.empty = Some (0, dir')
     \<and> (\<exists>chunks idx md.
           map chunk_id chunks = [0, 1]
         \<and> dir' ''metadata.pkl'' = Some (Pickle md) \<and> md_chunks md = chunks
         \<and> dir' ''faiss_index.bin'' = Some (FaissIndex idx)
         \<and> rows idx = [101, 61])"
proof -
  let ?m = "\<lparr>get_sentence_embedding_dimension = 1, encode = length\<rparr> :: nat SentenceTransformer"
  let ?env = "\<lparr>hub = (\<lambda>n. Some ?m),
           getenv_EMBEDDING_MODEL = None,
           data_dir = Some [\<lparr>pdf_name = [100], pdf_content = Pages [replicate 140 97]\<rparr>],
           lib = \<lparr>normalize_L2 = Suc, search = (\<lambda>idx q kk. Inr [])\<rparr>,
           can_mkdir = True, writable = (\<lambda>n. True), now = []\<rparr>"
  let ?a = "\<lparr>arg_embedding_model = None, arg_chunk_size = 100, arg_chunk_overlap = 20\<rparr>"
  let ?cfg = "\<lparr>chunk_size = 100, chunk_overlap = 20\<rparr>"
  let ?chunks = "[\<lparr>text' = replicate 100 97, filename = [100], page_num = 1, chunk_id = 0,
             char_start = 0, char_end = 100, excerpt = replicate 100 97\<rparr>,
           \<lparr>text' = replicate 60 97, filename = [100], page_num = 1, chunk_id = 1,
             char_start = 80, char_end = 180, excerpt = replicate 60 97\<rparr>]"
  have pages: "extract_text_from_pdf (Pages [replicate 140 97]) = [(1, replicate 140 97)]"
    by (simp add: extract_text_from_pdf_def)
  have pp: "process_pdfs ?cfg (data_dir ?env) = Some (Inr ?chunks)"
    using chunk_text_sample[of "[100]" 1 0] by (simp add: process_pdfs_def pages)
  have "\<exists>d. main ?env ?a Map.empty = Some (0, d)"
    using pp by (simp add: main_def Let_def save_index_def write_file_def)
  then obtain d where d: "main ?env ?a Map.empty = Some (0, d)" ..
  from ingestion_ordinals_dense[OF d] pp obtain idx md where
    "d ''metadata.pkl'' = Some (Pickle md)" "md_chunks md = ?chunks"
    "d ''faiss_index.bin'' = Some (FaissIndex idx)"
    "rows idx = map (\<lambda>c. normalize_L2 (lib ?env) (encode ?m (text' c))) ?chunks"
    by auto
  then show ?thesis using d
    by (rule_tac x = d in exI) auto
qed

text \<open>
  C2: for every state, every vector library (so every index search) and every request,
  \<open>retrieve\<close> with \<open>threshold = t\<close> returns what \<open>retrieve\<close> with no threshold returns
  (the same error, or the same response) with the results filtered to those of score
  \<open>\<ge> t\<close>, in the same order; the search is called with the same \<open>k\<close> in both.
\<close>

theorem threshold_filters_after_search:
  "retrieve fl detect st (request\<lparr>threshold := Some th\<rparr>) =
     map_sum id
       (\<lambda>resp. resp\<lparr>results := filter (\<lambda>r. th \<le> score r) (results resp),
                    num_results := length (filter (\<lambda>r. th \<le> score r) (results resp))\<rparr>)
       (retrieve fl detect st (request\<lparr>threshold := None\<rparr>))"
proof (cases "ready st")
  case False
  then show ?thesis by (simp add: retrieve_def)
next
  case True
  show ?thesis
  proof (cases "model st")
    case None
    with True show ?thesis by (simp add: retrieve_def Let_def)
  next
    case (Some m)
    show ?thesis
    proof (cases "index st")
      case None
      with True Some show ?thesis by (simp add: retrieve_def Let_def)
    next
      case idx: (Some idx)
      show ?thesis
      proof (cases "search fl idx (normalize_L2 fl (encode m (query request))) (k request)")
        case (Inl err)
        with True Some idx show ?thesis by (simp add: retrieve_def Let_def)
      next
        case hits: (Inr hits)
        show ?thesis
        proof (cases "metadata st")
          case None
          with True Some idx hits show ?thesis
            by (cases detect) (simp_all add: retrieve_def Let_def)
        next
          case md: (Some md)
          show ?thesis
          proof (cases "build_results (md_chunks md) None hits")
            case (Inl err)
            with True Some idx hits md show ?thesis
              by (simp add: retrieve_def Let_def build_results_threshold)
          next
            case (Inr res)
            with True Some idx hits md show ?thesis
              by (cases detect) (simp_all add: retrieve_def Let_def build_results_threshold)
          qed
        qed
      qed
    qed
  qed
qed

text \<open>
  C10: a request body passes validation exactly when its query is present and non-empty,
  its \<open>k\<close> (5 when absent) lies in 1..50 and its threshold, when given, lies in [0, 1];
  every other body is answered with the validation error whatever the server state and
  the library are, so neither the model nor the index is consulted.
\<close>

theorem request_validation:
  "((\<exists>request. validate_request body = Inr request) =
      ((\<exists>q. body_query body = Some q \<and> q \<noteq> [])
       \<and> (\<forall>n. body_k body = Some n \<longrightarrow> 1 \<le> n \<and> n \<le> 50)
       \<and> (\<forall>th. body_threshold body = Some th \<longrightarrow> 0 \<le> th \<and> th \<le> 1)))
   \<and> ((\<forall>request. validate_request body \<noteq> Inr request) \<longrightarrow>
        (\<forall>fl detect st. post_retrieve fl detect st body = Inl RequestValidationError))"
proof (intro conjI impI allI)
  show "(\<exists>request. validate_request body = Inr request) =
      ((\<exists>q. body_query body = Some q \<and> q \<noteq> [])
       \<and> (\<forall>n. body_k body = Some n \<longrightarrow> 1 \<le> n \<and> n \<le> 50)
       \<and> (\<forall>th. body_threshold body = Some th \<longrightarrow> 0 \<le> th \<and> th \<le> 1))"
    by (auto simp: validate_request_def Let_def split: option.splits if_splits)
next
  fix fl :: "'v faiss" and detect and st :: "'v ServerState"
  assume "\<forall>request. validate_request body \<noteq> Inr request"
  moreover have "validate_request body = Inl RequestValidationError \<or> (\<exists>request. validate_request body = Inr request)"
    by (auto simp: validate_request_def Let_def split: option.splits if_splits)
  ultimately have "validate_request body = Inl RequestValidationError" by blast
  then show "post_retrieve fl detect st body = Inl RequestValidationError"
    by (simp add: post_retrieve_def)
qed

theorem request_validation_witness:
  "validate_request \<lparr>body_query = Some [97], body_k = Some 50, body_lang_hint = None,
       body_threshold = Some 1\<rparr>
     = Inr \<lparr>query = [97], k = 50, lang_hint = None, threshold = Some 1\<rparr>
   \<and> post_retrieve \<lparr>normalize_L2 = id, search = (\<lambda>idx q kk. Inr [])\<rparr> None
        \<lparr>index = Some \<lparr>d = 1, rows = replicate 51 (0::nat)\<rparr>, metadata = None,
          model = Some \<lparr>get_sentence_embedding_dimension = 1, encode = length\<rparr>, ready = True\<rparr>
        \<lparr>body_query = Some [97], body_k = Some 51, body_lang_hint = None, body_threshold = None\<rparr>
     = Inl RequestValidationError"
proof -
  let ?bad = "\<lparr>body_query = Some [97], body_k = Some 51, body_lang_hint = None, body_threshold = None\<rparr>"
  have no: "\<forall>request. validate_request ?bad \<noteq> Inr request"
    by (simp add: validate_request_def)
  have ok: "validate_request \<lparr>body_query = Some [97], body_k = Some 50, body_lang_hint = None,
       body_threshold = Some 1\<rparr>
     = Inr \<lparr>query = [97], k = 50, lang_hint = None, threshold = Some 1\<rparr>"
    by (simp add: validate_request_def)
  from request_validation[of ?bad] no ok show ?thesis by blast
qed




text \<open>
  C3 (the server refuses until an index is loaded whose recorded dimension matches the
  embedder's; a mismatch is fatal at load time). The loaders compare no dimension: an
  index of dimension 2 with metadata recording dimension 2 loads beside a model of
  dimension 3, startup succeeds and \<open>ready\<close> is set. A query is then not refused as not
  ready: it reaches the index search, and the mismatch shows there, as the exception of
  a library that checks the dimension of the query.
\<close>

theorem startup_ignores_dimension:
  "startup_event
      \<lparr>settings_embedding_model = [109],
        model_hub = (\<lambda>n. Some \<lparr>get_sentence_embedding_dimension = 3, encode = (\<lambda>q. [1, 0, 0 :: int])\<rparr>),
        index_dir = Some [''faiss_index.bin'' \<mapsto> FaissIndex \<lparr>d = 2, rows = [[1, 0]]\<rparr>,
                          ''metadata.pkl'' \<mapsto> Pickle \<lparr>md_chunks = [], md_embedding_model = [109],
                             md_embedding_dim = 2, md_chunk_size = 700, md_chunk_overlap = 100,
                             md_created_at = [], md_num_chunks = 0\<rparr>]\<rparr>
      ServerState_init
    = (None,
       \<lparr>index = Some \<lparr>d = 2, rows = [[1, 0]]\<rparr>,
         metadata = Some \<lparr>md_chunks = [], md_embedding_model = [109],
                             md_embedding_dim = 2, md_chunk_size = 700, md_chunk_overlap = 100,
                             md_created_at = [], md_num_chunks = 0\<rparr>,
         model = Some \<lparr>get_sentence_embedding_dimension = 3, encode = (\<lambda>q. [1, 0, 0 :: int])\<rparr>,
         ready = True\<rparr>,
       False)
   \<and> retrieve
       \<lparr>normalize_L2 = id,
         search = (\<lambda>idx q kk. if length q = d idx then Inr [] else Inl AssertionError)\<rparr>
       None
       \<lparr>index = Some \<lparr>d = 2, rows = [[1, 0]]\<rparr>,
         metadata = Some \<lparr>md_chunks = [], md_embedding_model = [109],
                             md_embedding_dim = 2, md_chunk_size = 700, md_chunk_overlap = 100,
                             md_created_at = [], md_num_chunks = 0\<rparr>,
         model = Some \<lparr>get_sentence_embedding_dimension = 3, encode = (\<lambda>q. [1, 0, 0 :: int])\<rparr>,
         ready = True\<rparr>
       \<lparr>query = [97], k = 5, lang_hint = None, threshold = None\<rparr>
     = Inl AssertionError
   \<and> AssertionError \<noteq> HTTPException 503"
  by (simp add: startup_event_def load_embedding_model_def load_index_and_metadata_def
      ServerState_init_def retrieve_def model_warning_def)

text \<open>
  C3, amended: \<open>retrieve\<close> answers 503 as long as \<open>ready\<close> is not set; the initial state
  is not ready; \<open>startup_event\<close> sets \<open>ready\<close> exactly when it raises nothing; and it
  raises nothing exactly when the embedding model, the index file and the metadata file
  can all be loaded, whatever the dimensions of the model and of the index and whatever
  dimension and model name the metadata records: the state then holds these three, and
  a recorded model name that differs from the configured one (\<open>model_warning\<close>) has no
  other effect than the printed warning.
\<close>

theorem serves_only_after_startup:
  fixes env :: "'v server_env"
  shows "(\<not> ready st \<longrightarrow> retrieve fl detect st request = Inl (HTTPException 503))
   \<and> \<not> ready (ServerState_init :: 'v ServerState)
   \<and> (startup_event env ServerState_init = (err, st', warned) \<longrightarrow> ready st' = (err = None))
   \<and> (startup_event env ServerState_init = (None, st', warned)
        \<longleftrightarrow> (\<exists>m dir idx md.
               model_hub env (settings_embedding_model env) = Some m
             \<and> index_dir env = Some dir
             \<and> dir ''faiss_index.bin'' = Some (FaissIndex idx)
             \<and> dir ''metadata.pkl'' = Some (Pickle md)
             \<and> st' = \<lparr>index = Some idx, metadata = Some md, model = Some m, ready = True\<rparr>
             \<and> warned = model_warning env md))"
proof (intro conjI impI)
  assume "\<not> ready st"
  then show "retrieve fl detect st request = Inl (HTTPException 503)"
    by (simp add: retrieve_def)
next
  show "\<not> ready (ServerState_init :: 'v ServerState)" by (simp add: ServerState_init_def)
next
  assume "startup_event env ServerState_init = (err, st', warned)"
  then show "ready st' = (err = None)"
    by (auto simp: startup_event_def load_embedding_model_def load_index_and_metadata_def
        ServerState_init_def Let_def split: option.splits stored.splits prod.splits)
next
  show "startup_event env ServerState_init = (None, st', warned)
        \<longleftrightarrow> (\<exists>m dir idx md.
               model_hub env (settings_embedding_model env) = Some m
             \<and> index_dir env = Some dir
             \<and> dir ''faiss_index.bin'' = Some (FaissIndex idx)
             \<and> dir ''metadata.pkl'' = Some (Pickle md)
             \<and> st' = \<lparr>index = Some idx, metadata = Some md, model = Some m, ready = True\<rparr>
             \<and> warned = model_warning env md)"
  proof
    assume "startup_event env ServerState_init = (None, st', warned)"
    then show "\<exists>m dir idx md.
               model_hub env (settings_embedding_model env) = Some m
             \<and> index_dir env = Some dir
             \<and> dir ''faiss_index.bin'' = Some (FaissIndex idx)
             \<and> dir ''metadata.pkl'' = Some (Pickle md)
             \<and> st' = \<lparr>index = Some idx, metadata = Some md, model = Some m, ready = True\<rparr>
             \<and> warned = model_warning env md"
      by (auto simp: startup_event_def load_embedding_model_def load_index_and_metadata_def
          ServerState_init_def Let_def split: option.splits stored.splits prod.splits)
  next
    assume "\<exists>m dir idx md.
               model_hub env (settings_embedding_model env) = Some m
             \<and> index_dir env = Some dir
             \<and> dir ''faiss_index.bin'' = Some (FaissIndex idx)
             \<and> dir ''metadata.pkl'' = Some (Pickle md)
             \<and> st' = \<lparr>index = Some idx, metadata = Some md, model = Some m, ready = True\<rparr>
             \<and> warned = model_warning env md"
    then show "startup_event env ServerState_init = (None, st', warned)"
      by (auto simp: startup_event_def load_embedding_model_def load_index_and_metadata_def
          ServerState_init_def Let_def)
  qed
qed

theorem serves_only_after_startup_witness:
  "retrieve \<lparr>normalize_L2 = id, search = (\<lambda>idx q kk. Inr [])\<rparr> None
      (ServerState_init :: int list ServerState)
      \<lparr>query = [97], k = 5, lang_hint = None, threshold = None\<rparr> = Inl (HTTPException 503)
   \<and> startup_event
        \<lparr>settings_embedding_model = [109],
          model_hub = (\<lambda>n. Some \<lparr>get_sentence_embedding_dimension = 3, encode = (\<lambda>q. [1, 0, 0 :: int])\<rparr>),
          index_dir = None\<rparr>
        ServerState_init
      = (Some RuntimeError,
         \<lparr>index = None, metadata = None,
           model = Some \<lparr>get_sentence_embedding_dimension = 3, encode = (\<lambda>q. [1, 0, 0 :: int])\<rparr>,
           ready = False\<rparr>,
         False)
   \<and> ready \<lparr>index = None, metadata = None,
           model = Some \<lparr>get_sentence_embedding_dimension = 3, encode = (\<lambda>q. [1, 0, 0 :: int])\<rparr>,
           ready = False\<rparr> = (Some RuntimeError = (None :: py_error option))
   \<and> startup_event
        \<lparr>settings_embedding_model = [109],
          model_hub = (\<lambda>n. Some \<lparr>get_sentence_embedding_dimension = 3, encode = (\<lambda>q. [1, 0, 0 :: int])\<rparr>),
          index_dir = Some [''faiss_index.bin'' \<mapsto> FaissIndex \<lparr>d = 2, rows = [[1, 0]]\<rparr>,
                            ''metadata.pkl'' \<mapsto> Pickle \<lparr>md_chunks = [], md_embedding_model = [110],
                               md_embedding_dim = 2, md_chunk_size = 700, md_chunk_overlap = 100,
                               md_created_at = [], md_num_chunks = 0\<rparr>]\<rparr>
        ServerState_init
      = (None,
         \<lparr>index = Some \<lparr>d = 2, rows = [[1, 0]]\<rparr>,
           metadata = Some \<lparr>md_chunks = [], md_embedding_model = [110],
                               md_embedding_dim = 2, md_chunk_size = 700, md_chunk_overlap = 100,
                               md_created_at = [], md_num_chunks = 0\<rparr>,
           model = Some \<lparr>get_sentence_embedding_dimension = 3, encode = (\<lambda>q. [1, 0, 0 :: int])\<rparr>,
           ready = True\<rparr>,
         True)"
proof -
  let ?fl = "\<lparr>normalize_L2 = id, search = (\<lambda>idx q kk. Inr [])\<rparr> :: int list faiss"
  let ?rq = "\<lparr>query = [97], k = 5, lang_hint = None, threshold = None\<rparr>"
  let ?m = "\<lparr>get_sentence_embedding_dimension = 3, encode = (\<lambda>q :: str. [1, 0, 0 :: int])\<rparr>"
  let ?env = "\<lparr>settings_embedding_model = [109], model_hub = (\<lambda>n. Some ?m), index_dir = None\<rparr>"
  let ?st = "\<lparr>index = None, metadata = None, model = Some ?m, ready = False\<rparr>"
  let ?idx = "\<lparr>d = 2, rows = [[1, 0 :: int]]\<rparr>"
  let ?md = "\<lparr>md_chunks = [], md_embedding_model = [110],
                               md_embedding_dim = 2, md_chunk_size = 700, md_chunk_overlap = 100,
                               md_created_at = [], md_num_chunks = 0\<rparr>"
  let ?dir = "[''faiss_index.bin'' \<mapsto> FaissIndex ?idx, ''metadata.pkl'' \<mapsto> Pickle ?md]"
  let ?good = "\<lparr>settings_embedding_model = [109], model_hub = (\<lambda>n. Some ?m),
          index_dir = Some ?dir\<rparr>"
  let ?st' = "\<lparr>index = Some ?idx, metadata = Some ?md, model = Some ?m, ready = True\<rparr>"
  have s: "startup_event ?env ServerState_init = (Some RuntimeError, ?st, False)"
    by (simp add: startup_event_def load_embedding_model_def load_index_and_metadata_def
        ServerState_init_def)
  have loads: "\<exists>m dir idx md.
               model_hub ?good (settings_embedding_model ?good) = Some m
             \<and> index_dir ?good = Some dir
             \<and> dir ''faiss_index.bin'' = Some (FaissIndex idx)
             \<and> dir ''metadata.pkl'' = Some (Pickle md)
             \<and> ?st' = \<lparr>index = Some idx, metadata = Some md, model = Some m, ready = True\<rparr>
             \<and> True = model_warning ?good md"
    by (intro exI[of _ ?m] exI[of _ ?dir] exI[of _ ?idx] exI[of _ ?md])
      (simp add: model_warning_def)
  from serves_only_after_startup[of ServerState_init ?fl None ?rq ?good None ?st' True] loads
  have good: "startup_event ?good ServerState_init = (None, ?st', True)"
    by blast
  from serves_only_after_startup[of ServerState_init ?fl None ?rq ?env "Some RuntimeError" ?st False] s
  have "retrieve ?fl None (ServerState_init :: int list ServerState) ?rq = Inl (HTTPException 503)"
    "ready ?st = (Some RuntimeError = (None :: py_error option))"
    by (simp_all add: ServerState_init_def)
  with s good show ?thesis by simp
qed




text \<open>
  C8 (a terminator found in the lookback window moves the right edge to just past it, so
  that the untrimmed slice ends after the complete terminator pattern). The edge is set
  to \<open>sentence_end + 1\<close>, one past the first character of the two-character pattern:
  with the period and space at indices 60 and 61, the first chunk ends at 61 and its
  slice \<open>text[0:61]\<close> ends with the period; the space is outside it.
\<close>

theorem cut_inside_terminator:
  "chunk_text \<lparr>chunk_size = 100, chunk_overlap = 20\<rparr> (replicate 60 97 @ [46, 32] @ replicate 60 97)
      [] 1 0 =
     Some [\<lparr>text' = replicate 60 97 @ [46], filename = [], page_num = 1, chunk_id = 0,
             char_start = 0, char_end = 61, excerpt = replicate 60 97 @ [46]\<rparr>,
           \<lparr>text' = replicate 19 97 @ [46, 32] @ replicate 60 97, filename = [], page_num = 1,
             chunk_id = 1, char_start = 41, char_end = 141,
             excerpt = replicate 19 97 @ [46, 32] @ replicate 60 97\<rparr>]
   \<and> matches_at (replicate 60 97 @ [46, 32] @ replicate 60 (97::nat)) [46, 32] 60
   \<and> py_slice (replicate 60 97 @ [46, 32] @ replicate 60 (97::nat)) 0 61 = replicate 60 97 @ [46]
   \<and> (61::int) \<noteq> 60 + 2"
  using chunk_text_sentence_sample[of "[]" 1 0]
  by (simp add: matches_at_def py_slice_def adjust_index_def)

text \<open>
  C8, amended: for every chunk that \<open>chunk_text\<close> returns (with
  \<open>0 \<le> chunk_overlap < chunk_size\<close>): when the window's edge \<open>char_start + chunk_size\<close>
  lies before the end of the text and a terminator pattern starts strictly after
  \<open>char_start\<close>, within the last 100 characters of the window and fits before the edge,
  then \<open>char_end\<close> is one past the start of the rightmost such pattern (the slice ends
  with the pattern's first character); otherwise \<open>char_end\<close> is the uncut edge
  \<open>char_start + chunk_size\<close>.
\<close>

theorem chunk_end_at_sentence:
  assumes cfg: "chunk_overlap cfg < chunk_size cfg" "0 \<le> chunk_overlap cfg"
    and ret: "chunk_text cfg t fname pg chunk_offset = Some chunks"
    and c: "c \<in> set chunks"
  shows "if char_start c + chunk_size cfg < int (length t)
            \<and> (\<exists>p. term_at t p \<and> char_start c < p \<and> char_start c + chunk_size cfg - 100 \<le> p
                    \<and> p + 2 \<le> char_start c + chunk_size cfg)
         then term_at t (char_end c - 1) \<and> char_start c < char_end c - 1
              \<and> char_start c + chunk_size cfg - 100 \<le> char_end c - 1
              \<and> char_end c + 1 \<le> char_start c + chunk_size cfg
              \<and> (\<forall>p. term_at t p \<and> p + 2 \<le> char_start c + chunk_size cfg \<longrightarrow> p < char_end c)
         else char_end c = char_start c + chunk_size cfg"
proof -
  let ?s = "char_start c" and ?e = "char_end c" and ?cs = "chunk_size cfg"
  note w = emitted_window[OF cfg ret c]
  from cfg have pos: "0 < ?cs" by simp
  show ?thesis
  proof (cases "?s + ?cs < int (length t)")
    case False
    then show ?thesis using w(3) by (simp add: window_end_far)
  next
    case True
    define se where "se = max_list (sentence_ends t (max ?s (?s + ?cs - 100)) (?s + ?cs))"
    note n = window_end_nonneg[OF w(1) True pos, folded se_def]
    show ?thesis
    proof (cases "\<exists>p. term_at t p \<and> ?s < p \<and> ?s + ?cs - 100 \<le> p \<and> p + 2 \<le> ?s + ?cs")
      case found: True
      then obtain p where p: "term_at t p" "?s < p" "?s + ?cs - 100 \<le> p" "p + 2 \<le> ?s + ?cs" by blast
      then have "p \<le> se" using n(3)[of p] by simp
      with p have lt: "?s < se" by simp
      with n(1) w(3) have e: "?e = se + 1" by simp
      have rightmost: "q < ?e" if "term_at t q" "q + 2 \<le> ?s + ?cs" for q
      proof (cases "max ?s (?s + ?cs - 100) \<le> q")
        case True
        with n(3)[of q] that e show ?thesis by simp
      next
        case False
        with n(2) lt e w(1) show ?thesis by auto
      qed
      from n(2) lt w(1) have "term_at t se" "?s + ?cs - 100 \<le> se" "se + 2 \<le> ?s + ?cs" by auto
      with lt e rightmost True found show ?thesis by auto
    next
      case none: False
      have "\<not> ?s < se"
      proof
        assume "?s < se"
        with n(2) w(1) have "term_at t se \<and> ?s < se \<and> ?s + ?cs - 100 \<le> se \<and> se + 2 \<le> ?s + ?cs" by auto
        with none show False by blast
      qed
      with n(1) w(3) none show ?thesis by simp
    qed
  qed
qed

theorem chunk_end_at_sentence_witness:
  "chunk_text \<lparr>chunk_size = 100, chunk_overlap = 20\<rparr> (replicate 60 97 @ [46, 32] @ replicate 60 97)
      [] 1 0 =
     Some [\<lparr>text' = replicate 60 97 @ [46], filename = [], page_num = 1, chunk_id = 0,
             char_start = 0, char_end = 61, excerpt = replicate 60 97 @ [46]\<rparr>,
           \<lparr>text' = replicate 19 97 @ [46, 32] @ replicate 60 97, filename = [], page_num = 1,
             chunk_id = 1, char_start = 41, char_end = 141,
             excerpt = replicate 19 97 @ [46, 32] @ replicate 60 97\<rparr>]
   \<and> term_at (replicate 60 97 @ [46, 32] @ replicate 60 97) (61 - 1)
   \<and> (0::int) < 61 - 1 \<and> (0::int) + 100 - 100 \<le> 61 - 1 \<and> (61::int) + 1 \<le> 0 + 100
   \<and> (141::int) = 41 + chunk_size \<lparr>chunk_size = 100, chunk_overlap = 20\<rparr>"
proof -
  let ?cfg = "\<lparr>chunk_size = 100, chunk_overlap = 20\<rparr>"
  let ?t = "replicate 60 (97::nat) @ [46, 32] @ replicate 60 97"
  let ?c1 = "\<lparr>text' = replicate 60 97 @ [46], filename = [], page_num = 1, chunk_id = 0,
             char_start = 0, char_end = 61, excerpt = replicate 60 97 @ [46]\<rparr>"
  let ?c2 = "\<lparr>text' = replicate 19 97 @ [46, 32] @ replicate 60 97, filename = [], page_num = 1,
             chunk_id = 1, char_start = 41, char_end = 141,
             excerpt = replicate 19 97 @ [46, 32] @ replicate 60 97\<rparr>"
  have ret: "chunk_text ?cfg ?t [] 1 0 = Some [?c1, ?c2]"
    using chunk_text_sentence_sample[of "[]" 1 0] by simp
  have found: "\<exists>p. term_at ?t p \<and> 0 < p \<and> 0 \<le> p \<and> p + 2 \<le> 100"
    using sample_terminator[of 60] by (intro exI[of _ 60]) simp
  from chunk_end_at_sentence[of ?cfg ?t "[]" 1 0 "[?c1, ?c2]" ?c1] ret found
  have "term_at ?t (61 - 1) \<and> (0::int) < 61 - 1 \<and> (0::int) + 100 - 100 \<le> 61 - 1
      \<and> (61::int) + 1 \<le> 0 + 100"
    by simp
  moreover from chunk_end_at_sentence[of ?cfg ?t "[]" 1 0 "[?c1, ?c2]" ?c2] ret
  have "(141::int) = 41 + chunk_size ?cfg" by simp
  ultimately show ?thesis using ret by simp
qed




end
